theory Spec2Isabelle
  imports Complex_Main "HOL-Library.Word" "HOL-Library.Stream"
begin

section \<open>The bytecode fuzzer of Tools/fuzzer/fuzzer/fuzzer.py\<close>

text \<open>
  A shallow embedding of the mutation core of the fuzzer: the opcode sets, the resampling
  helpers, \<open>randomize_opcode\<close>, \<open>randomize_variable\<close>, \<open>get_const_key\<close>, the table
  operations, \<open>can_replace_oparg\<close>, \<open>generate_oparg_for_randomized_opcode\<close>,
  \<open>Fuzzer.randomize_oparg\<close> and \<open>fuzzer_compile\<close>. Python exceptions are values of
  the type \<open>error\<close>; a function that may raise returns \<open>error + 'a\<close>. The module
  \<open>random\<close> is a stream of raw draws that is passed through every function that
  consumes randomness; each draw is reduced into the requested range.

  The three resampling helpers call themselves again for as long as the candidate equals
  the original, and the source sets no bound on that. The interpreter does: a call that
  would exceed its recursion limit (\<open>sys.getrecursionlimit()\<close>, 1000 unless changed)
  raises RecursionError. Every function that reaches a resampling helper therefore takes
  the argument \<open>depth\<close>, the number of nested calls of the helper that the interpreter
  still allows at that point (never more than the recursion limit); with none left the
  call raises. The frames of the other functions are not counted.
\<close>

subsection \<open>Exceptions and the random source\<close>

datatype error =
    ValueError | IndexError | KeyError | TypeError | UnboundLocalError | RecursionError
  | SyntaxError | VerificationError | RuntimeError | OtherError

type_synonym rng = "nat stream"

text \<open>\<open>random.randint(a, b)\<close>: some integer of the closed range; an empty range raises.\<close>

definition random_randint :: "int \<Rightarrow> int \<Rightarrow> rng \<Rightarrow> error + int \<times> rng" where
  "random_randint a b g =
     (if b < a then Inl ValueError
      else Inr (a + int (shd g mod nat (b - a + 1)), stl g))"

text \<open>\<open>random.choice(seq)\<close>: some element of the sequence; an empty sequence raises.\<close>

definition random_choice :: "'a list \<Rightarrow> rng \<Rightarrow> error + 'a \<times> rng" where
  "random_choice xs g =
     (if xs = [] then Inl IndexError
      else Inr (xs ! (shd g mod length xs), stl g))"

subsection \<open>Module constants\<close>

text \<open>\<open>sys.maxsize\<close> is that of a 64-bit platform.\<close>

definition STR_LEN_UPPER_BOUND :: int where "STR_LEN_UPPER_BOUND = 100"
definition STR_LEN_LOWER_BOUND :: int where "STR_LEN_LOWER_BOUND = 0"
definition INT_UPPER_BOUND :: int where "INT_UPPER_BOUND = 2 ^ 63 - 1"
definition INT_LOWER_BOUND :: int where "INT_LOWER_BOUND = - (2 ^ 63 - 1) - 1"
definition OPARG_LOWER_BOUND :: int where "OPARG_LOWER_BOUND = 0"
definition OPARG_UPPER_BOUND :: int where "OPARG_UPPER_BOUND = 2 ^ 32 - 1"
definition CMP_OP_LENGTH :: int where "CMP_OP_LENGTH = 12"
definition INSTR_RANDOMIZATION_CHANCE :: int where "INSTR_RANDOMIZATION_CHANCE = 50"

subsection \<open>The opcode sets of class Fuzzer\<close>

text \<open>
  A Python set literal is the list of its elements as the source writes them, read
  through \<open>set\<close> for membership; \<open>tuple(options)\<close> enumerates each element once.
\<close>

definition INSTRS_WITH_OPARG_IN_CONSTS :: "string list" where
  "INSTRS_WITH_OPARG_IN_CONSTS =
    [''LOAD_CONST'', ''LOAD_CLASS'', ''INVOKE_FUNCTION'', ''INVOKE_METHOD'',
     ''LOAD_FIELD'', ''STORE_FIELD'', ''CAST'', ''PRIMITIVE_BOX'', ''PRIMITIVE_UNBOX'',
     ''TP_ALLOC'', ''CHECK_ARGS'', ''BUILD_CHECKED_MAP'', ''BUILD_CHECKED_LIST'',
     ''PRIMITIVE_LOAD_CONST'', ''LOAD_LOCAL'', ''STORE_LOCAL'', ''REFINE_TYPE'',
     ''LOAD_METHOD_SUPER'', ''LOAD_ATTR_SUPER'', ''FUNC_CREDENTIAL'',
     ''READONLY_OPERATION'']"

definition INSTRS_WITH_OPARG_IN_VARNAMES :: "string list" where
  "INSTRS_WITH_OPARG_IN_VARNAMES =
    [''LOAD_FAST'', ''STORE_FAST'', ''DELETE_FAST'']"

definition INSTRS_WITH_OPARG_IN_NAMES :: "string list" where
  "INSTRS_WITH_OPARG_IN_NAMES =
    [''LOAD_NAME'', ''LOAD_GLOBAL'', ''STORE_GLOBAL'', ''DELETE_GLOBAL'',
     ''STORE_NAME'', ''DELETE_NAME'', ''IMPORT_NAME'', ''IMPORT_FROM'', ''STORE_ATTR'',
     ''LOAD_ATTR'', ''DELETE_ATTR'', ''LOAD_METHOD'']"

definition INSTRS_WITH_OPARG_IN_CLOSURE :: "string list" where
  "INSTRS_WITH_OPARG_IN_CLOSURE =
    [''LOAD_DEREF'', ''STORE_DEREF'', ''DELETE_DEREF'', ''LOAD_CLASSDEREF'',
     ''LOAD_CLOSURE'']"

definition INSTRS_WITH_BRANCHES :: "string list" where
  "INSTRS_WITH_BRANCHES =
    [''FOR_ITER'', ''JUMP_ABSOLUTE'', ''JUMP_FORWARD'', ''JUMP_IF_FALSE_OR_POP'',
     ''JUMP_IF_TRUE_OR_POP'', ''POP_JUMP_IF_FALSE'', ''POP_JUMP_IF_TRUE'',
     ''RETURN_VALUE'', ''RAISE_VARARGS'', ''JUMP_ABSOLUTE'', ''JUMP_FORWARD'']"

definition INSTRS_WITH_STACK_EFFECT_0 :: "string list" where
  "INSTRS_WITH_STACK_EFFECT_0 =
    [''ROT_TWO'', ''ROT_THREE'', ''ROT_FOUR'', ''NOP'', ''UNARY_POSITIVE'',
     ''UNARY_NEGATIVE'', ''UNARY_NOT'', ''UNARY_INVERT'', ''GET_AITER'', ''GET_ITER'',
     ''GET_YIELD_FROM_ITER'', ''GET_AWAITABLE'', ''SETUP_ANNOTATIONS'', ''YIELD_VALUE'',
     ''POP_BLOCK'', ''DELETE_NAME'', ''DELETE_GLOBAL'', ''LOAD_ATTR'', ''JUMP_FORWARD'',
     ''JUMP_ABSOLUTE'', ''DELETE_FAST'', ''DELETE_DEREF'', ''EXTENDED_ARG'']"

definition INSTRS_WITH_STACK_EFFECT_1 :: "string list" where
  "INSTRS_WITH_STACK_EFFECT_1 =
    [''DUP_TOP'', ''GET_ANEXT'', ''BEFORE_ASYNC_WITH'', ''LOAD_BUILD_CLASS'',
     ''LOAD_NAME'', ''IMPORT_FROM'', ''LOAD_GLOBAL'', ''LOAD_FAST'', ''LOAD_CLOSURE'',
     ''LOAD_DEREF'', ''FUNC_CREDENTIAL'', ''LOAD_CLASSDEREF'', ''LOAD_METHOD'']"

definition INSTRS_WITH_STACK_EFFECT_2 :: "string list" where
  "INSTRS_WITH_STACK_EFFECT_2 =
    [''DUP_TOP_TWO'', ''WITH_CLEANUP_START'']"

definition INSTRS_WITH_STACK_EFFECT_NEG_1 :: "string list" where
  "INSTRS_WITH_STACK_EFFECT_NEG_1 =
    [''POP_TOP'', ''BINARY_MATRIX_MULTIPLY'', ''INPLACE_MATRIX_MULTIPLY'',
     ''BINARY_POWER'', ''BINARY_MULTIPLY'', ''BINARY_MODULO'', ''BINARY_ADD'',
     ''BINARY_SUBTRACT'', ''BINARY_SUBSCR'', ''BINARY_FLOOR_DIVIDE'',
     ''BINARY_TRUE_DIVIDE'', ''INPLACE_FLOOR_DIVIDE'', ''INPLACE_TRUE_DIVIDE'',
     ''INPLACE_ADD'', ''INPLACE_SUBTRACT'', ''INPLACE_MULTIPLY'', ''INPLACE_MODULO'',
     ''BINARY_LSHIFT'', ''BINARY_RSHIFT'', ''BINARY_AND'', ''BINARY_XOR'',
     ''BINARY_OR'', ''INPLACE_POWER'', ''PRINT_EXPR'', ''YIELD_FROM'',
     ''INPLACE_LSHIFT'', ''INPLACE_RSHIFT'', ''INPLACE_AND'', ''INPLACE_XOR'',
     ''INPLACE_OR'', ''RETURN_VALUE'', ''IMPORT_STAR'', ''STORE_NAME'', ''DELETE_ATTR'',
     ''STORE_GLOBAL'', ''IMPORT_NAME'', ''POP_JUMP_IF_FALSE'', ''POP_JUMP_IF_TRUE'',
     ''STORE_FAST'', ''STORE_DEREF'', ''LIST_APPEND'', ''SET_ADD'',
     ''LOAD_METHOD_SUPER'']"

definition INSTRS_WITH_STACK_EFFECT_NEG_2 :: "string list" where
  "INSTRS_WITH_STACK_EFFECT_NEG_2 =
    [''DELETE_SUBSCR'', ''STORE_ATTR'', ''MAP_ADD'', ''LOAD_ATTR_SUPER'']"

definition INSTRS_WITH_STACK_EFFECT_NEG_3 :: "string list" where
  "INSTRS_WITH_STACK_EFFECT_NEG_3 =
    [''STORE_SUBSCR'', ''WITH_CLEANUP_FINISH'', ''POP_EXCEPT'']"

definition INSTRS_WITH_OPARG_AFFECTING_STACK :: "string list" where
  "INSTRS_WITH_OPARG_AFFECTING_STACK =
    [''MAKE_FUNCTION'', ''CALL_FUNCTION'', ''BUILD_MAP'', ''BUILD_MAP_UNPACK'',
     ''BUILD_MAP_UNPACK_WITH_CALL'', ''BUILD_CONST_KEY_MAP'', ''UNPACK_SEQUENCE'',
     ''UNPACK_EX'', ''BUILD_TUPLE'', ''BUILD_LIST'', ''BUILD_SET'', ''BUILD_STRING'',
     ''BUILD_LIST_UNPACK'', ''BUILD_TUPLE_UNPACK'', ''BUILD_TUPLE_UNPACK_WITH_CALL'',
     ''BUILD_SET_UNPACK'', ''CALL_FUNCTION_KW'', ''CALL_FUNCTION_EX'', ''CALL_METHOD'',
     ''RAISE_VARARGS'']"

definition tuple_of_set :: "'a list \<Rightarrow> 'a list" where
  "tuple_of_set options = remdups options"

subsection \<open>Resampling helpers\<close>

fun generate_random_integer ::
  "nat \<Rightarrow> int \<Rightarrow> int \<Rightarrow> int \<Rightarrow> rng \<Rightarrow> error + int \<times> rng" where
  "generate_random_integer 0 original lower upper g = Inl RecursionError"
| "generate_random_integer (Suc depth) original lower upper g =
     (case random_randint lower upper g of
        Inl e \<Rightarrow> Inl e
      | Inr (random_int, g') \<Rightarrow>
          if random_int = original then generate_random_integer depth original lower upper g'
          else Inr (random_int, g'))"

fun generate_random_opcode ::
  "nat \<Rightarrow> string \<Rightarrow> string list \<Rightarrow> rng \<Rightarrow> error + string \<times> rng" where
  "generate_random_opcode 0 opcode options g = Inl RecursionError"
| "generate_random_opcode (Suc depth) opcode options g =
     (case random_choice (tuple_of_set options) g of
        Inl e \<Rightarrow> Inl e
      | Inr (new_op, g') \<Rightarrow>
          if new_op = opcode then generate_random_opcode depth opcode options g'
          else Inr (new_op, g'))"

text \<open>
  \<open>string.ascii_letters + string.digits + string.punctuation\<close>: the 94 printable ASCII
  characters. The punctuation characters are given by their code points (33 to 47,
  58 to 64, 91 to 96 and 123 to 126).
\<close>

definition ascii_letters :: string where
  "ascii_letters = ''abcdefghijklmnopqrstuvwxyzABCDEFGHIJKLMNOPQRSTUVWXYZ''"

definition digits :: string where
  "digits = ''0123456789''"

definition punctuation :: string where
  "punctuation = map char_of ([33..<48] @ [58..<65] @ [91..<97] @ [123..<127] :: nat list)"

text \<open>
  \<open>"".join(random.choice(...) for i in range(newlen))\<close>: one draw per character; a
  negative \<open>newlen\<close> gives the empty range.
\<close>

fun random_chars :: "nat \<Rightarrow> rng \<Rightarrow> error + string \<times> rng" where
  "random_chars 0 g = Inr ([], g)"
| "random_chars (Suc n) g =
     (case random_choice (ascii_letters @ digits @ punctuation) g of
        Inl e \<Rightarrow> Inl e
      | Inr (c, g') \<Rightarrow>
          (case random_chars n g' of
             Inl e \<Rightarrow> Inl e
           | Inr (cs, g'') \<Rightarrow> Inr (c # cs, g'')))"

text \<open>The first two statements of \<open>generate_random_string\<close>: one candidate string.\<close>

definition random_str_draw :: "int \<Rightarrow> int \<Rightarrow> rng \<Rightarrow> error + string \<times> rng" where
  "random_str_draw lower upper g =
     (case random_randint lower upper g of
        Inl e \<Rightarrow> Inl e
      | Inr (newlen, g') \<Rightarrow> random_chars (nat newlen) g')"

fun generate_random_string ::
  "nat \<Rightarrow> string \<Rightarrow> int \<Rightarrow> int \<Rightarrow> rng \<Rightarrow> error + string \<times> rng" where
  "generate_random_string 0 original lower upper g = Inl RecursionError"
| "generate_random_string (Suc depth) original lower upper g =
     (case random_str_draw lower upper g of
        Inl e \<Rightarrow> Inl e
      | Inr (random_str, g') \<Rightarrow>
          if random_str = original then generate_random_string depth original lower upper g'
          else Inr (random_str, g'))"

definition generate_random_ioparg ::
  "nat \<Rightarrow> string \<Rightarrow> int \<Rightarrow> rng \<Rightarrow> error + int \<times> rng" where
  "generate_random_ioparg depth opcode ioparg g =
     (if opcode \<in> set INSTRS_WITH_BRANCHES
         \<or> opcode \<in> set INSTRS_WITH_OPARG_AFFECTING_STACK
         \<or> opcode \<in> set INSTRS_WITH_OPARG_IN_CONSTS
      then Inr (ioparg, g)
      else if opcode = ''COMPARE_OP''
      then generate_random_integer depth ioparg 0 CMP_OP_LENGTH g
      else generate_random_integer depth ioparg OPARG_LOWER_BOUND OPARG_UPPER_BOUND g)"

subsection \<open>Opcode substitution\<close>

definition stack_depth_sets :: "string list list" where
  "stack_depth_sets =
     [INSTRS_WITH_STACK_EFFECT_0, INSTRS_WITH_STACK_EFFECT_1, INSTRS_WITH_STACK_EFFECT_2,
      INSTRS_WITH_STACK_EFFECT_NEG_1, INSTRS_WITH_STACK_EFFECT_NEG_2,
      INSTRS_WITH_STACK_EFFECT_NEG_3]"

text \<open>
  The \<open>for\<close> loop of \<open>randomize_opcode\<close> stops at the first set of \<open>stack_depth_sets\<close>
  that contains the opcode; \<open>stack_depth_set_of\<close> is that search, and \<open>None\<close> is the
  loop running to its end.
\<close>

definition stack_depth_set_of :: "string \<Rightarrow> string list option" where
  "stack_depth_set_of opcode =
     find (\<lambda>stack_depth_set. opcode \<in> set stack_depth_set) stack_depth_sets"

definition randomize_opcode :: "nat \<Rightarrow> string \<Rightarrow> rng \<Rightarrow> error + string \<times> rng" where
  "randomize_opcode depth opcode g =
     (if opcode \<in> set INSTRS_WITH_BRANCHES
         \<or> opcode \<in> set INSTRS_WITH_OPARG_AFFECTING_STACK
         \<or> opcode = ''LOAD_CONST''
      then Inr (opcode, g)
      else (case stack_depth_set_of opcode of
              Some stack_depth_set \<Rightarrow> generate_random_opcode depth opcode stack_depth_set g
            | None \<Rightarrow> Inr (opcode, g)))"

subsection \<open>Python values\<close>

text \<open>
  The operands the front end hands to \<open>emit\<close>: names, integers, constants (numbers,
  strings, tuples, frozen sets, \<open>None\<close>), blocks, and other objects such as nested code
  generators, which are known by their type name and identity only. A float is its IEEE
  754 double as 64 bits. A frozen set is the list of its elements in iteration order.
\<close>

datatype pyval =
    PNone
  | PBool bool
  | PInt int
  | PFloat "64 word"
  | PComplex "64 word" "64 word"
  | PStr string
  | PTuple "pyval list"
  | PFrozenset "pyval list"
  | PType string
  | PBlock nat
  | PObject string nat

datatype fval = Finite rat | Infinite bool | NotANumber

definition float_value :: "64 word \<Rightarrow> fval" where
  "float_value w =
     (let s = bit w 63; e = unat (take_bit 11 (drop_bit 52 w)); m = unat (take_bit 52 w)
      in if e = 2047 then (if m = 0 then Infinite s else NotANumber)
         else Finite ((if s then - 1 else 1)
                * (if e = 0 then of_nat m / 2 ^ 1074
                   else of_nat (2 ^ 52 + m) * 2 ^ e / 2 ^ 1075)))"

definition numeric_value :: "pyval \<Rightarrow> (fval \<times> fval) option" where
  "numeric_value v =
     (case v of
        PBool b \<Rightarrow> Some (Finite (if b then 1 else 0), Finite 0)
      | PInt i \<Rightarrow> Some (Finite (of_int i), Finite 0)
      | PFloat x \<Rightarrow> Some (float_value x, Finite 0)
      | PComplex x y \<Rightarrow> Some (float_value x, float_value y)
      | _ \<Rightarrow> None)"

text \<open>\<open>==\<close> between numbers: exact comparison of the values; a NaN equals nothing.\<close>

definition num_eq :: "pyval \<Rightarrow> pyval \<Rightarrow> bool" where
  "num_eq v w =
     (case (numeric_value v, numeric_value w) of
        (Some (a, b), Some (c, d)) \<Rightarrow>
          a = c \<and> b = d \<and> a \<noteq> NotANumber \<and> b \<noteq> NotANumber
      | _ \<Rightarrow> False)"

text \<open>
  Equality as dictionaries and containers test it: the same object, or \<open>==\<close>. The model
  knows an object by its value, so a value is always equal to itself. Tuples compare
  element by element, frozen sets by size and membership, and \<open>0.0 == -0.0\<close>,
  \<open>1 == 1.0 == True\<close> hold as in Python.
\<close>

primrec py_eq :: "pyval \<Rightarrow> pyval \<Rightarrow> bool"
  and py_eq_list :: "pyval list \<Rightarrow> pyval list \<Rightarrow> bool"
  and py_subset :: "pyval list \<Rightarrow> pyval list \<Rightarrow> bool"
where
  "py_eq PNone w = (w = PNone)"
| "py_eq (PBool b) w = num_eq (PBool b) w"
| "py_eq (PInt i) w = num_eq (PInt i) w"
| "py_eq (PFloat x) w = (w = PFloat x \<or> num_eq (PFloat x) w)"
| "py_eq (PComplex x y) w = (w = PComplex x y \<or> num_eq (PComplex x y) w)"
| "py_eq (PStr s) w = (w = PStr s)"
| "py_eq (PTuple xs) w = (case w of PTuple ys \<Rightarrow> py_eq_list xs ys | _ \<Rightarrow> False)"
| "py_eq (PFrozenset xs) w =
     (case w of PFrozenset ys \<Rightarrow> length xs = length ys \<and> py_subset xs ys | _ \<Rightarrow> False)"
| "py_eq (PType n) w = (w = PType n)"
| "py_eq (PBlock n) w = (w = PBlock n)"
| "py_eq (PObject t n) w = (w = PObject t n)"
| "py_eq_list [] ys = (ys = [])"
| "py_eq_list (x # xs) ys =
     (case ys of [] \<Rightarrow> False | y # ys' \<Rightarrow> py_eq x y \<and> py_eq_list xs ys')"
| "py_subset [] ys = True"
| "py_subset (x # xs) ys = (list_ex (py_eq x) ys \<and> py_subset xs ys)"

definition type_of :: "pyval \<Rightarrow> pyval" where
  "type_of v =
     (case v of
        PNone \<Rightarrow> PType ''NoneType''
      | PBool b \<Rightarrow> PType ''bool''
      | PInt i \<Rightarrow> PType ''int''
      | PFloat x \<Rightarrow> PType ''float''
      | PComplex x y \<Rightarrow> PType ''complex''
      | PStr s \<Rightarrow> PType ''str''
      | PTuple xs \<Rightarrow> PType ''tuple''
      | PFrozenset xs \<Rightarrow> PType ''frozenset''
      | PType n \<Rightarrow> PType ''type''
      | PBlock n \<Rightarrow> PType ''Block''
      | PObject t n \<Rightarrow> PType t)"

text \<open>\<open>frozenset(iterable)\<close>: equal elements are kept once.\<close>

definition frozenset_of :: "pyval list \<Rightarrow> pyval list" where
  "frozenset_of xs = fold (\<lambda>x acc. if list_ex (py_eq x) acc then acc else acc @ [x]) xs []"

subsection \<open>Constant-pool keys\<close>

text \<open>
  Modelled from the spec: \<open>pyassem.sign\<close> is not among the sources. The spec says that
  the derived key tells floating-point values apart by the sign of zero; the model
  returns 1.0 or -1.0 with the sign bit of its argument.
\<close>

definition pyassem_sign :: "64 word \<Rightarrow> pyval" where
  "pyassem_sign x = PFloat (if bit x 63 then 0xBFF0000000000000 else 0x3FF0000000000000)"

primrec get_const_key :: "pyval \<Rightarrow> pyval" where
  "get_const_key (PFloat x) = PTuple [type_of (PFloat x), PFloat x, pyassem_sign x]"
| "get_const_key (PComplex x y) =
     PTuple [type_of (PComplex x y), PComplex x y, pyassem_sign x, pyassem_sign y]"
| "get_const_key (PTuple xs) =
     PTuple [type_of (PTuple xs), PTuple xs, PTuple (map get_const_key xs)]"
| "get_const_key (PFrozenset xs) =
     PTuple [type_of (PFrozenset xs), PFrozenset xs, PTuple (map get_const_key xs)]"
| "get_const_key PNone = PTuple [type_of PNone, PNone]"
| "get_const_key (PBool b) = PTuple [type_of (PBool b), PBool b]"
| "get_const_key (PInt i) = PTuple [type_of (PInt i), PInt i]"
| "get_const_key (PStr s) = PTuple [type_of (PStr s), PStr s]"
| "get_const_key (PType n) = PTuple [type_of (PType n), PType n]"
| "get_const_key (PBlock n) = PTuple [type_of (PBlock n), PBlock n]"
| "get_const_key (PObject t n) = PTuple [type_of (PObject t n), PObject t n]"

text \<open>
  Modelled from the spec: the method \<open>get_const_key\<close> of the flow graph is not among the
  sources. The spec gives one derivation of constant-pool keys, and the source says that
  the module's function is the graph's method without its state.
\<close>

definition graph_get_const_key :: "pyval \<Rightarrow> pyval" where
  "graph_get_const_key value = get_const_key value"

subsection \<open>Randomizing an operand value\<close>

definition bind_result :: "error + 'a \<Rightarrow> ('a \<Rightarrow> error + 'b) \<Rightarrow> error + 'b" where
  "bind_result m f = (case m of Inl e \<Rightarrow> Inl e | Inr x \<Rightarrow> f x)"

primrec randomize_variable :: "pyval \<Rightarrow> nat \<Rightarrow> rng \<Rightarrow> error + pyval \<times> rng"
  and randomize_variables :: "pyval list \<Rightarrow> nat \<Rightarrow> rng \<Rightarrow> error + pyval list \<times> rng"
where
  "randomize_variable (PStr s) depth g =
     bind_result
       (generate_random_string depth s STR_LEN_LOWER_BOUND STR_LEN_UPPER_BOUND g)
       (\<lambda>(r, g'). Inr (PStr r, g'))"
| "randomize_variable (PInt i) depth g =
     bind_result (generate_random_integer depth i INT_LOWER_BOUND INT_UPPER_BOUND g)
       (\<lambda>(r, g'). Inr (PInt r, g'))"
| "randomize_variable (PBool b) depth g =
     bind_result
       (generate_random_integer depth (if b then 1 else 0) INT_LOWER_BOUND INT_UPPER_BOUND g)
       (\<lambda>(r, g'). Inr (PInt r, g'))"
| "randomize_variable (PTuple xs) depth g =
     bind_result (randomize_variables xs depth g) (\<lambda>(ys, g'). Inr (PTuple ys, g'))"
| "randomize_variable (PFrozenset xs) depth g =
     bind_result (randomize_variables xs depth g)
       (\<lambda>(ys, g'). Inr (PFrozenset (frozenset_of ys), g'))"
| "randomize_variable PNone depth g = Inr (PNone, g)"
| "randomize_variable (PFloat x) depth g = Inr (PFloat x, g)"
| "randomize_variable (PComplex x y) depth g = Inr (PComplex x y, g)"
| "randomize_variable (PType n) depth g = Inr (PType n, g)"
| "randomize_variable (PBlock n) depth g = Inr (PBlock n, g)"
| "randomize_variable (PObject t n) depth g = Inr (PObject t n, g)"
| "randomize_variables [] depth g = Inr ([], g)"
| "randomize_variables (x # xs) depth g =
     bind_result (randomize_variable x depth g)
       (\<lambda>(y, g'). bind_result (randomize_variables xs depth g')
          (\<lambda>(ys, g''). Inr (y # ys, g'')))"

subsection \<open>Dictionaries and the tables of the flow graph\<close>

text \<open>
  A \<open>dict\<close> is the list of its items in insertion order; a key matches a stored key when
  \<open>py_eq\<close> holds. \<open>del d[k]\<close> raises KeyError for an absent key; \<open>d[k] = v\<close> keeps the
  place of a present key and appends an absent one.
\<close>

type_synonym 'v pydict = "(pyval \<times> 'v) list"

definition dict_lookup :: "'v pydict \<Rightarrow> pyval \<Rightarrow> 'v option" where
  "dict_lookup d k = map_option snd (find (\<lambda>item. py_eq (fst item) k) d)"

definition dict_contains :: "'v pydict \<Rightarrow> pyval \<Rightarrow> bool" where
  "dict_contains d k = (dict_lookup d k \<noteq> None)"

fun dict_delete :: "'v pydict \<Rightarrow> pyval \<Rightarrow> error + 'v pydict" where
  "dict_delete [] k = Inl KeyError"
| "dict_delete (item # d) k =
     (if py_eq (fst item) k then Inr d
      else (case dict_delete d k of Inl e \<Rightarrow> Inl e | Inr d' \<Rightarrow> Inr (item # d')))"

fun dict_store :: "'v pydict \<Rightarrow> pyval \<Rightarrow> 'v \<Rightarrow> 'v pydict" where
  "dict_store [] k v = [(k, v)]"
| "dict_store (item # d) k v =
     (if py_eq (fst item) k then (fst item, v) # d else item # dict_store d k v)"

text \<open>
  Modelled from the spec: the class \<open>pyassem.IndexedSet\<close> is not among the sources. The
  spec describes an ordered unique table, a mapping from a key to an integer index with
  insert-or-lookup (the index of a present key, else the key is appended) and deletion of
  a key. The source reaches the mapping as the attribute \<open>keys\<close>; the model is that
  dictionary, and an appended key gets the number of entries as its index.
\<close>

type_synonym IndexedSet = "int pydict"

definition get_index :: "pyval \<Rightarrow> IndexedSet \<Rightarrow> int \<times> IndexedSet" where
  "get_index item t =
     (case dict_lookup t item of
        Some idx \<Rightarrow> (idx, t)
      | None \<Rightarrow> (int (length t), t @ [(item, int (length t))]))"

definition replace_closure_var ::
  "pyval \<Rightarrow> pyval \<Rightarrow> int \<Rightarrow> IndexedSet \<Rightarrow> IndexedSet
     \<Rightarrow> error + int \<times> IndexedSet \<times> IndexedSet" where
  "replace_closure_var name randomized_name ioparg freevars cellvars =
     (if dict_contains freevars name
      then (case dict_delete freevars name of
              Inl e \<Rightarrow> Inl e
            | Inr freevars' \<Rightarrow>
                (case get_index randomized_name freevars' of
                   (idx, freevars'') \<Rightarrow> Inr (idx, freevars'', cellvars)))
      else (case dict_delete cellvars name of
              Inl e \<Rightarrow> Inl e
            | Inr cellvars' \<Rightarrow>
                (case get_index randomized_name cellvars' of
                   (idx, cellvars'') \<Rightarrow> Inr (idx, freevars, cellvars''))))"

definition replace_name_var :: "pyval \<Rightarrow> pyval \<Rightarrow> IndexedSet \<Rightarrow> error + int \<times> IndexedSet" where
  "replace_name_var name randomized_name location =
     (if dict_contains location name
      then (case dict_delete location name of
              Inl e \<Rightarrow> Inl e
            | Inr location' \<Rightarrow> Inr (get_index randomized_name location'))
      else Inr (get_index randomized_name location))"

definition replace_const_var :: "pyval \<Rightarrow> pyval \<Rightarrow> int pydict \<Rightarrow> error + int \<times> int pydict" where
  "replace_const_var old_key new_key consts_dict =
     (case dict_lookup consts_dict old_key of
        None \<Rightarrow> Inl KeyError
      | Some oparg_index \<Rightarrow>
          (case dict_delete consts_dict old_key of
             Inl e \<Rightarrow> Inl e
           | Inr consts' \<Rightarrow> Inr (oparg_index, dict_store consts' new_key oparg_index)))"

text \<open>The tables of the flow graph that the fuzzer reads and mutates.\<close>

record tables =
  g_consts :: "int pydict"
  g_names :: IndexedSet
  g_varnames :: IndexedSet
  g_freevars :: IndexedSet
  g_cellvars :: IndexedSet
  g_closure :: IndexedSet

definition can_replace_oparg ::
  "string \<Rightarrow> int pydict \<Rightarrow> IndexedSet \<Rightarrow> IndexedSet \<Rightarrow> IndexedSet \<Rightarrow> bool" where
  "can_replace_oparg opcode consts_dict names varnames closure =
     (if opcode \<in> set INSTRS_WITH_OPARG_IN_CONSTS then length consts_dict > 1
      else if opcode \<in> set INSTRS_WITH_OPARG_IN_NAMES then length names > 1
      else if opcode \<in> set INSTRS_WITH_OPARG_IN_VARNAMES then length varnames > 1
      else if opcode \<in> set INSTRS_WITH_OPARG_IN_CLOSURE then length closure > 1
      else True)"

text \<open>The first half of \<open>generate_oparg_for_randomized_opcode\<close>: delete the original oparg.\<close>

definition delete_original_oparg :: "string \<Rightarrow> pyval \<Rightarrow> tables \<Rightarrow> error + tables" where
  "delete_original_oparg original_opcode oparg t =
     (if original_opcode \<in> set INSTRS_WITH_OPARG_IN_CONSTS
      then (case dict_delete (g_consts t) (get_const_key oparg) of
              Inl e \<Rightarrow> Inl e | Inr d \<Rightarrow> Inr (t\<lparr>g_consts := d\<rparr>))
      else if original_opcode \<in> set INSTRS_WITH_OPARG_IN_NAMES
      then (case dict_delete (g_names t) oparg of
              Inl e \<Rightarrow> Inl e | Inr d \<Rightarrow> Inr (t\<lparr>g_names := d\<rparr>))
      else if original_opcode \<in> set INSTRS_WITH_OPARG_IN_VARNAMES
      then (case dict_delete (g_varnames t) oparg of
              Inl e \<Rightarrow> Inl e | Inr d \<Rightarrow> Inr (t\<lparr>g_varnames := d\<rparr>))
      else if original_opcode \<in> set INSTRS_WITH_OPARG_IN_CLOSURE
      then (if dict_contains (g_freevars t) oparg
            then (case dict_delete (g_freevars t) oparg of
                    Inl e \<Rightarrow> Inl e | Inr d \<Rightarrow> Inr (t\<lparr>g_freevars := d\<rparr>))
            else (case dict_delete (g_cellvars t) oparg of
                    Inl e \<Rightarrow> Inl e | Inr d \<Rightarrow> Inr (t\<lparr>g_cellvars := d\<rparr>)))
      else Inr t)"

text \<open>The second half: a new oparg that corresponds with the new instruction.\<close>

definition new_oparg_for ::
  "nat \<Rightarrow> string \<Rightarrow> pyval \<Rightarrow> tables \<Rightarrow> rng \<Rightarrow> error + pyval \<times> tables \<times> rng" where
  "new_oparg_for depth randomized_opcode oparg t g =
     (if randomized_opcode \<in> set INSTRS_WITH_OPARG_IN_CONSTS
      then bind_result (randomize_variable oparg depth g)
             (\<lambda>(new_oparg, g').
                Inr (new_oparg,
                  t\<lparr>g_consts := dict_store (g_consts t) (get_const_key new_oparg)
                                  (int (length (g_consts t)))\<rparr>, g'))
      else if randomized_opcode \<in> set INSTRS_WITH_OPARG_IN_NAMES
      then bind_result (randomize_variable (PStr []) depth g)
             (\<lambda>(new_oparg, g').
                Inr (new_oparg,
                  t\<lparr>g_names := snd (get_index new_oparg (g_names t))\<rparr>, g'))
      else if randomized_opcode \<in> set INSTRS_WITH_OPARG_IN_VARNAMES
      then bind_result (randomize_variable (PStr []) depth g)
             (\<lambda>(new_oparg, g').
                Inr (new_oparg,
                  t\<lparr>g_varnames := snd (get_index new_oparg (g_varnames t))\<rparr>, g'))
      else if randomized_opcode \<in> set INSTRS_WITH_OPARG_IN_CLOSURE
      then bind_result (randomize_variable (PStr []) depth g)
             (\<lambda>(new_oparg, g').
                Inr (new_oparg,
                  t\<lparr>g_freevars := snd (get_index new_oparg (g_freevars t))\<rparr>, g'))
      else bind_result
             (generate_random_integer depth (- 1) OPARG_LOWER_BOUND OPARG_UPPER_BOUND g)
             (\<lambda>(r, g'). Inr (PInt r, t, g')))"

definition generate_oparg_for_randomized_opcode ::
  "nat \<Rightarrow> string \<Rightarrow> string \<Rightarrow> pyval \<Rightarrow> tables \<Rightarrow> rng
     \<Rightarrow> error + pyval \<times> tables \<times> rng" where
  "generate_oparg_for_randomized_opcode depth original_opcode randomized_opcode oparg t g =
     (case delete_original_oparg original_opcode oparg t of
        Inl e \<Rightarrow> Inl e
      | Inr t' \<Rightarrow> new_oparg_for depth randomized_opcode oparg t' g)"

subsection \<open>Operand randomization\<close>

datatype instruction = Instruction string pyval int "pyval option"

text \<open>
  The state of one \<open>Fuzzer\<close> object: its mutation record, the tables of its flow graph,
  the flag \<open>do_not_emit_bytecode\<close> and the instructions emitted into the current block.
\<close>

record fuzzer =
  oparg_randomizations :: "pyval pydict"
  graph :: tables
  do_not_emit_bytecode :: bool
  current :: "instruction list"

definition current_emit :: "instruction \<Rightarrow> fuzzer \<Rightarrow> fuzzer" where
  "current_emit inst st = st\<lparr>current := current st @ [inst]\<rparr>"

text \<open>The lookup in the mutation record, with a fresh randomization for an absent oparg.\<close>

definition randomized_oparg_of ::
  "nat \<Rightarrow> pyval \<Rightarrow> fuzzer \<Rightarrow> rng \<Rightarrow> error + pyval \<times> fuzzer \<times> rng" where
  "randomized_oparg_of depth oparg st g =
     (case dict_lookup (oparg_randomizations st) oparg of
        Some randomized_oparg \<Rightarrow> Inr (randomized_oparg, st, g)
      | None \<Rightarrow>
          bind_result (randomize_variable oparg depth g)
            (\<lambda>(randomized_oparg, g').
               Inr (randomized_oparg,
                 st\<lparr>oparg_randomizations :=
                      dict_store (oparg_randomizations st) oparg randomized_oparg\<rparr>, g')))"

definition randomize_oparg ::
  "nat \<Rightarrow> string \<Rightarrow> pyval \<Rightarrow> int \<Rightarrow> fuzzer \<Rightarrow> rng \<Rightarrow> error + fuzzer \<times> rng" where
  "randomize_oparg depth opcode oparg ioparg st g =
     (if do_not_emit_bytecode st then Inr (st, g)
      else bind_result (randomized_oparg_of depth oparg st g)
        (\<lambda>(randomized_oparg, st1, g1).
           if opcode \<in> set INSTRS_WITH_OPARG_IN_NAMES
           then (case replace_name_var oparg randomized_oparg (g_names (graph st1)) of
                   Inl e \<Rightarrow> Inl e
                 | Inr (ioparg', names') \<Rightarrow>
                     Inr (current_emit (Instruction opcode randomized_oparg ioparg' None)
                       (st1\<lparr>graph := (graph st1)\<lparr>g_names := names'\<rparr>\<rparr>), g1))
           else if opcode \<in> set INSTRS_WITH_OPARG_IN_VARNAMES
           then (case replace_name_var oparg randomized_oparg (g_varnames (graph st1)) of
                   Inl e \<Rightarrow> Inl e
                 | Inr (ioparg', varnames') \<Rightarrow>
                     Inr (current_emit (Instruction opcode randomized_oparg ioparg' None)
                       (st1\<lparr>graph := (graph st1)\<lparr>g_varnames := varnames'\<rparr>\<rparr>), g1))
           else if opcode \<in> set INSTRS_WITH_OPARG_IN_CONSTS \<and> opcode \<noteq> ''LOAD_CONST''
           then (case replace_const_var (graph_get_const_key oparg)
                        (graph_get_const_key randomized_oparg) (g_consts (graph st1)) of
                   Inl e \<Rightarrow> Inl e
                 | Inr (ioparg', consts') \<Rightarrow>
                     Inr (current_emit (Instruction opcode randomized_oparg ioparg' None)
                       (st1\<lparr>graph := (graph st1)\<lparr>g_consts := consts'\<rparr>\<rparr>), g1))
           else if opcode \<in> set INSTRS_WITH_OPARG_IN_CLOSURE
           then (case replace_closure_var oparg randomized_oparg ioparg
                        (g_freevars (graph st1)) (g_cellvars (graph st1)) of
                   Inl e \<Rightarrow> Inl e
                 | Inr (ioparg', freevars', cellvars') \<Rightarrow>
                     Inr (current_emit (Instruction opcode randomized_oparg ioparg' None)
                       (st1\<lparr>graph := (graph st1)\<lparr>g_freevars := freevars',
                                                 g_cellvars := cellvars'\<rparr>\<rparr>), g1))
           else bind_result (generate_random_ioparg depth opcode ioparg g1)
                  (\<lambda>(ioparg', g2).
                     Inr (current_emit (Instruction opcode oparg ioparg' None) st1, g2))))"

subsection \<open>The fuzz driver\<close>

datatype FuzzerReturnTypes = SYNTAX_ERROR | ERROR_CAUGHT_BY_JIT | VERIFICATION_ERROR | SUCCESS

text \<open>
  The collaborators of \<open>fuzzer_compile\<close> are parameters: the instrumented compiler, the
  verifier, \<open>types.FunctionType\<close> applied to the first constant of the code object, the
  JIT (absent when the import of \<open>cinderjit\<close> failed) and \<open>textwrap.indent\<close>. Each call
  returns or raises.
\<close>

record ('code, 'func) collaborators =
  compile_source :: "string \<Rightarrow> error + 'code"
  validate_code :: "'code \<Rightarrow> error + unit"
  function_type :: "'code \<Rightarrow> error + 'func"
  cinderjit :: "('func \<Rightarrow> error + unit) option"
  textwrap_indent :: "string \<Rightarrow> string \<Rightarrow> string"

text \<open>
  The \<open>except\<close> clauses of the outer \<open>try\<close>. The name \<open>code\<close> is bound only once the
  compiler has returned; the clause for VerificationError reads it.
\<close>

definition except_clauses ::
  "'code option \<Rightarrow> error \<Rightarrow> error + 'code option \<times> FuzzerReturnTypes" where
  "except_clauses code e =
     (if e = SyntaxError then Inr (None, SYNTAX_ERROR)
      else if e = VerificationError
      then (case code of
              None \<Rightarrow> Inl UnboundLocalError
            | Some c \<Rightarrow> Inr (Some c, VERIFICATION_ERROR))
      else Inl e)"

text \<open>
  \<open>except RuntimeError\<close> also catches the subclasses of RuntimeError, of which the model
  has RecursionError.
\<close>

definition is_RuntimeError :: "error \<Rightarrow> bool" where
  "is_RuntimeError e = (e = RuntimeError \<or> e = RecursionError)"

definition wrap_code :: "('code, 'func) collaborators \<Rightarrow> string \<Rightarrow> string" where
  "wrap_code env code_str =
     ''def wrapper_function():'' @ [CHR 0x0A] @ textwrap_indent env code_str ''  ''"

definition fuzzer_compile ::
  "('code, 'func) collaborators \<Rightarrow> string \<Rightarrow> error + 'code option \<times> FuzzerReturnTypes" where
  "fuzzer_compile env code_str =
     (let wrapped_code_str = wrap_code env code_str
      in case compile_source env wrapped_code_str of
           Inl e \<Rightarrow> except_clauses None e
         | Inr code \<Rightarrow>
             (case validate_code env code of
                Inl e \<Rightarrow> except_clauses (Some code) e
              | Inr u \<Rightarrow>
                  (case function_type env code of
                     Inl e \<Rightarrow> except_clauses (Some code) e
                   | Inr func \<Rightarrow>
                       (case cinderjit env of
                          None \<Rightarrow> Inr (Some code, SUCCESS)
                        | Some force_compile \<Rightarrow>
                            (case force_compile func of
                               Inl e \<Rightarrow>
                                 if is_RuntimeError e then Inr (Some code, ERROR_CAUGHT_BY_JIT)
                                 else except_clauses (Some code) e
                             | Inr jit_compiled_function \<Rightarrow> Inr (Some code, SUCCESS))))))"

subsection \<open>Notions used to state the properties\<close>

text \<open>
  The random source after \<open>k\<close> candidates of a resampling helper have been drawn, and
  whether the candidate drawn from a source ends the resampling (it differs from the
  original, or the draw itself raises).
\<close>

fun rng_after :: "(rng \<Rightarrow> error + 'a \<times> rng) \<Rightarrow> nat \<Rightarrow> rng \<Rightarrow> rng" where
  "rng_after draw 0 g = g"
| "rng_after draw (Suc k) g =
     (case draw g of Inl e \<Rightarrow> g | Inr (x, g') \<Rightarrow> rng_after draw k g')"

definition accepted :: "(rng \<Rightarrow> error + 'a \<times> rng) \<Rightarrow> 'a \<Rightarrow> rng \<Rightarrow> bool" where
  "accepted draw original g =
     (case draw g of Inl e \<Rightarrow> True | Inr (x, g') \<Rightarrow> x \<noteq> original)"

text \<open>
  An opcode is eligible for substitution when \<open>randomize_opcode\<close> does not return it at
  once: it is in neither exempt set, is not LOAD_CONST, and some fixed-effect set has it.
\<close>

definition eligible :: "string \<Rightarrow> bool" where
  "eligible opcode =
     (opcode \<notin> set INSTRS_WITH_BRANCHES
      \<and> opcode \<notin> set INSTRS_WITH_OPARG_AFFECTING_STACK
      \<and> opcode \<noteq> ''LOAD_CONST''
      \<and> stack_depth_set_of opcode \<noteq> None)"

text \<open>
  Collaborators for concrete runs. The first front end rejects the wrapped text of
  \<open>def f(:\<close> and compiles any other text, its verifier rejects every unit and there is no
  JIT. The second front end lets a KeyError of the instrumented emission escape for the
  text \<open>lambda a: lambda: a + a\<close> and a ValueError for a text that is one NUL
  character, and compiles any other text; its verifier accepts, and its JIT raises
  RuntimeError for unit 1 only.
\<close>

definition stub_collaborators :: "(nat, nat) collaborators" where
  "stub_collaborators =
     \<lparr>compile_source =
        (\<lambda>s. if s = ''def wrapper_function():'' @ [CHR 0x0A] @ ''  def f(:''
              then Inl SyntaxError else Inr 0),
      validate_code = (\<lambda>c. Inl VerificationError),
      function_type = (\<lambda>c. Inr 0),
      cinderjit = None,
      textwrap_indent = (\<lambda>s p. p @ s)\<rparr>"

definition jit_collaborators :: "(nat, nat) collaborators" where
  "jit_collaborators =
     \<lparr>compile_source =
        (\<lambda>s. if s = ''def wrapper_function():'' @ [CHR 0x0A] @ ''  lambda a: lambda: a + a''
              then Inl KeyError
              else if s = ''def wrapper_function():'' @ [CHR 0x0A] @ ''  '' @ [CHR 0x00]
              then Inl ValueError
              else if s = ''def wrapper_function():'' @ [CHR 0x0A] @ ''  x = 1''
              then Inr 1 else Inr 0),
      validate_code = (\<lambda>c. Inr ()),
      function_type = (\<lambda>c. Inr c),
      cinderjit = Some (\<lambda>f. if f = 1 then Inl RuntimeError else Inr ()),
      textwrap_indent = (\<lambda>s p. p @ s)\<rparr>"

text \<open>
  Two values differ in the sign of a zero when, at some position reached through tuples,
  one holds \<open>0.0\<close> and the other \<open>-0.0\<close>.
\<close>

primrec sign_of_zero_differs :: "pyval \<Rightarrow> pyval \<Rightarrow> bool"
  and sign_of_zero_differs_list :: "pyval list \<Rightarrow> pyval list \<Rightarrow> bool"
where
  "sign_of_zero_differs (PFloat x) w =
     (case w of
        PFloat y \<Rightarrow> take_bit 63 x = 0 \<and> take_bit 63 y = 0 \<and> bit x 63 \<noteq> bit y 63
      | _ \<Rightarrow> False)"
| "sign_of_zero_differs (PTuple xs) w =
     (case w of PTuple ys \<Rightarrow> sign_of_zero_differs_list xs ys | _ \<Rightarrow> False)"
| "sign_of_zero_differs PNone w = False"
| "sign_of_zero_differs (PBool b) w = False"
| "sign_of_zero_differs (PInt i) w = False"
| "sign_of_zero_differs (PComplex x y) w = False"
| "sign_of_zero_differs (PStr s) w = False"
| "sign_of_zero_differs (PFrozenset xs) w = False"
| "sign_of_zero_differs (PType n) w = False"
| "sign_of_zero_differs (PBlock n) w = False"
| "sign_of_zero_differs (PObject t n) w = False"
| "sign_of_zero_differs_list [] ys = False"
| "sign_of_zero_differs_list (x # xs) ys =
     (case ys of
        [] \<Rightarrow> False
      | y # ys' \<Rightarrow> sign_of_zero_differs x y \<or> sign_of_zero_differs_list xs ys')"

text \<open>
  The opcodes whose operand \<open>randomize_oparg\<close> replaces by its randomized value: those
  with the operand in a table, LOAD_CONST apart.
\<close>

definition table_resident :: "string \<Rightarrow> bool" where
  "table_resident opcode =
     (opcode \<in> set INSTRS_WITH_OPARG_IN_NAMES
      \<or> opcode \<in> set INSTRS_WITH_OPARG_IN_VARNAMES
      \<or> (opcode \<in> set INSTRS_WITH_OPARG_IN_CONSTS \<and> opcode \<noteq> ''LOAD_CONST'')
      \<or> opcode \<in> set INSTRS_WITH_OPARG_IN_CLOSURE)"

text \<open>Every entry of the first mutation record is an entry of the second.\<close>

definition record_kept :: "pyval pydict \<Rightarrow> pyval pydict \<Rightarrow> bool" where
  "record_kept d d' = (\<forall>k v. dict_lookup d k = Some v \<longrightarrow> dict_lookup d' k = Some v)"

section \<open>Properties\<close>

subsection \<open>The random source\<close>

lemma randint_range:
  assumes "lower \<le> upper"
  shows "lower \<le> lower + int (k mod nat (upper - lower + 1))"
    and "lower + int (k mod nat (upper - lower + 1)) \<le> upper"
proof -
  have "0 < nat (upper - lower + 1)"
    using assms by simp
  then have "k mod nat (upper - lower + 1) < nat (upper - lower + 1)"
    by (rule mod_less_divisor)
  then show "lower + int (k mod nat (upper - lower + 1)) \<le> upper"
    using assms by linarith
  show "lower \<le> lower + int (k mod nat (upper - lower + 1))"
    by simp
qed

lemma random_choice_member:
  "random_choice xs g = Inr (x, g') \<Longrightarrow> x \<in> set xs"
  by (auto simp: random_choice_def split: if_splits)

subsection \<open>Resampling: the first accepted candidate, or the recursion limit\<close>

text \<open>
  A function that resamples as the three helpers do either returns the outcome of the
  first candidate that is accepted, found among the first \<open>depth\<close> candidates, or it
  raises RecursionError after \<open>depth\<close> candidates that all equal the original.
\<close>

lemma resample_cases:
  fixes f :: "nat \<Rightarrow> rng \<Rightarrow> error + 'a \<times> rng"
  assumes z: "\<And>g. f 0 g = Inl RecursionError"
    and s: "\<And>n g. f (Suc n) g =
      (case d g of Inl e \<Rightarrow> Inl e
       | Inr (x, g') \<Rightarrow> if x = original then f n g' else Inr (x, g'))"
  shows "(\<exists>k<depth. accepted d original (rng_after d k g)
            \<and> (\<forall>j<k. \<not> accepted d original (rng_after d j g))
            \<and> f depth g = d (rng_after d k g))
       \<or> ((\<forall>j<depth. \<not> accepted d original (rng_after d j g))
            \<and> f depth g = Inl RecursionError)"
proof (induction depth arbitrary: g)
  case 0
  show ?case by (simp add: z)
next
  case (Suc n)
  show ?case
  proof (cases "accepted d original g")
    case True
    then have "f (Suc n) g = d g"
      by (auto simp: s accepted_def split: sum.splits)
    with True have "0 < Suc n \<and> accepted d original (rng_after d 0 g)
        \<and> (\<forall>j<0. \<not> accepted d original (rng_after d j g))
        \<and> f (Suc n) g = d (rng_after d 0 g)"
      by simp
    then show ?thesis by blast
  next
    case False
    then obtain g' where dg: "d g = Inr (original, g')"
      by (auto simp: accepted_def split: sum.splits)
    then have step: "f (Suc n) g = f n g'"
      by (simp add: s)
    have shift: "rng_after d (Suc j) g = rng_after d j g'" for j
      by (simp add: dg)
    from Suc.IH[of g'] show ?thesis
    proof
      assume "\<exists>k<n. accepted d original (rng_after d k g')
            \<and> (\<forall>j<k. \<not> accepted d original (rng_after d j g'))
            \<and> f n g' = d (rng_after d k g')"
      then obtain k where k: "k < n" "accepted d original (rng_after d k g')"
        "\<forall>j<k. \<not> accepted d original (rng_after d j g')"
        "f n g' = d (rng_after d k g')"
        by blast
      have "\<not> accepted d original (rng_after d j g)" if "j < Suc k" for j
      proof (cases j)
        case 0
        with False show ?thesis by simp
      next
        case (Suc j')
        with that k(3) show ?thesis by (simp add: dg)
      qed
      with k step have "Suc k < Suc n \<and> accepted d original (rng_after d (Suc k) g)
          \<and> (\<forall>j<Suc k. \<not> accepted d original (rng_after d j g))
          \<and> f (Suc n) g = d (rng_after d (Suc k) g)"
        by (simp add: dg)
      then show ?thesis by blast
    next
      assume r: "(\<forall>j<n. \<not> accepted d original (rng_after d j g'))
            \<and> f n g' = Inl RecursionError"
      have "\<not> accepted d original (rng_after d j g)" if "j < Suc n" for j
      proof (cases j)
        case 0
        with False show ?thesis by simp
      next
        case (Suc j')
        with that r show ?thesis by (simp add: dg)
      qed
      with r step show ?thesis by simp
    qed
  qed
qed

lemma generate_random_integer_cases:
  "(\<exists>k<depth. accepted (random_randint lower upper) original
                 (rng_after (random_randint lower upper) k g)
       \<and> (\<forall>j<k. \<not> accepted (random_randint lower upper) original
                    (rng_after (random_randint lower upper) j g))
       \<and> generate_random_integer depth original lower upper g =
           random_randint lower upper (rng_after (random_randint lower upper) k g))
   \<or> ((\<forall>j<depth. \<not> accepted (random_randint lower upper) original
                      (rng_after (random_randint lower upper) j g))
       \<and> generate_random_integer depth original lower upper g = Inl RecursionError)"
  by (rule resample_cases[where f = "\<lambda>n. generate_random_integer n original lower upper"])
    simp_all

lemma generate_random_string_cases:
  "(\<exists>k<depth. accepted (random_str_draw lower upper) original
                 (rng_after (random_str_draw lower upper) k g)
       \<and> (\<forall>j<k. \<not> accepted (random_str_draw lower upper) original
                    (rng_after (random_str_draw lower upper) j g))
       \<and> generate_random_string depth original lower upper g =
           random_str_draw lower upper (rng_after (random_str_draw lower upper) k g))
   \<or> ((\<forall>j<depth. \<not> accepted (random_str_draw lower upper) original
                      (rng_after (random_str_draw lower upper) j g))
       \<and> generate_random_string depth original lower upper g = Inl RecursionError)"
  by (rule resample_cases[where f = "\<lambda>n. generate_random_string n original lower upper"])
    simp_all

lemma generate_random_opcode_cases:
  "(\<exists>k<depth. accepted (random_choice (tuple_of_set options)) opcode
                 (rng_after (random_choice (tuple_of_set options)) k g)
       \<and> (\<forall>j<k. \<not> accepted (random_choice (tuple_of_set options)) opcode
                    (rng_after (random_choice (tuple_of_set options)) j g))
       \<and> generate_random_opcode depth opcode options g =
           random_choice (tuple_of_set options)
             (rng_after (random_choice (tuple_of_set options)) k g))
   \<or> ((\<forall>j<depth. \<not> accepted (random_choice (tuple_of_set options)) opcode
                      (rng_after (random_choice (tuple_of_set options)) j g))
       \<and> generate_random_opcode depth opcode options g = Inl RecursionError)"
  by (rule resample_cases[where f = "\<lambda>n. generate_random_opcode n opcode options"])
    simp_all

text \<open>When a value is returned: some candidate among the first \<open>depth\<close> is accepted.\<close>

lemma resample_value_iff:
  assumes cases: "(\<exists>k<depth. accepted d original (rng_after d k g)
            \<and> (\<forall>j<k. \<not> accepted d original (rng_after d j g))
            \<and> r = d (rng_after d k g))
       \<or> ((\<forall>j<depth. \<not> accepted d original (rng_after d j g)) \<and> r = Inl RecursionError)"
    and total: "\<And>g e. d g \<noteq> Inl e"
  shows "(\<exists>y. r = Inr y) = (\<exists>k<depth. accepted d original (rng_after d k g))"
proof
  assume "\<exists>y. r = Inr y"
  with cases show "\<exists>k<depth. accepted d original (rng_after d k g)"
    by auto
next
  assume a: "\<exists>k<depth. accepted d original (rng_after d k g)"
  with cases obtain k where "r = d (rng_after d k g)"
    by auto
  with total[of "rng_after d k g"] show "\<exists>y. r = Inr y"
    by (cases "d (rng_after d k g)") auto
qed

subsection \<open>The integer resampler\<close>

lemma generate_random_integer_step:
  "0 < depth \<Longrightarrow> lower \<le> upper \<Longrightarrow>
   generate_random_integer depth original lower upper g =
     (if lower + int (shd g mod nat (upper - lower + 1)) = original
      then generate_random_integer (depth - 1) original lower upper (stl g)
      else Inr (lower + int (shd g mod nat (upper - lower + 1)), stl g))"
  by (cases depth) (simp_all add: random_randint_def)

lemma generate_random_integer_sound:
  "generate_random_integer depth original lower upper g = Inr (r, g') \<Longrightarrow>
   r \<noteq> original \<and> lower \<le> r \<and> r \<le> upper"
proof (induction depth arbitrary: g)
  case 0
  then show ?case by simp
next
  case (Suc n)
  then show ?case
    by (auto simp: random_randint_def randint_range split: if_splits)
qed

lemma generate_random_integer_error:
  "generate_random_integer depth original lower upper g = Inl e \<Longrightarrow> lower \<le> upper \<Longrightarrow>
   e = RecursionError"
proof (induction depth arbitrary: g)
  case 0
  then show ?case by simp
next
  case (Suc n)
  then show ?case
    by (auto simp: random_randint_def split: if_splits)
qed

subsection \<open>The opcode sets and the opcode resampler\<close>

lemma fixed_sets_distinct:
  "distinct (INSTRS_WITH_STACK_EFFECT_0 @ INSTRS_WITH_STACK_EFFECT_1 @ INSTRS_WITH_STACK_EFFECT_2
     @ INSTRS_WITH_STACK_EFFECT_NEG_1 @ INSTRS_WITH_STACK_EFFECT_NEG_2
     @ INSTRS_WITH_STACK_EFFECT_NEG_3 @ INSTRS_WITH_OPARG_AFFECTING_STACK)"
  unfolding INSTRS_WITH_STACK_EFFECT_0_def INSTRS_WITH_STACK_EFFECT_1_def
    INSTRS_WITH_STACK_EFFECT_2_def INSTRS_WITH_STACK_EFFECT_NEG_1_def
    INSTRS_WITH_STACK_EFFECT_NEG_2_def INSTRS_WITH_STACK_EFFECT_NEG_3_def
    INSTRS_WITH_OPARG_AFFECTING_STACK_def
  by simp

lemma stack_depth_sets_distinct: "distinct (concat stack_depth_sets)"
  using fixed_sets_distinct unfolding stack_depth_sets_def by auto

lemma find_class_unique:
  "distinct (concat sets) \<Longrightarrow> s \<in> set sets \<Longrightarrow> x \<in> set s \<Longrightarrow>
   find (\<lambda>t. x \<in> set t) sets = Some s"
proof (induction sets)
  case Nil
  then show ?case by simp
next
  case (Cons a sets)
  show ?case
  proof (cases "s = a")
    case True
    with Cons.prems show ?thesis by simp
  next
    case False
    with Cons.prems have mem: "s \<in> set sets" by simp
    with Cons.prems(3) have "x \<in> set (concat sets)" by auto
    with Cons.prems(1) have "x \<notin> set a" by auto
    moreover from Cons.prems(1) have "distinct (concat sets)" by simp
    ultimately show ?thesis using Cons.IH mem Cons.prems(3) by simp
  qed
qed

lemma stack_depth_set_of_member:
  "stack_depth_set_of opcode = Some s \<Longrightarrow> s \<in> set stack_depth_sets \<and> opcode \<in> set s"
  unfolding stack_depth_set_of_def by (auto simp: find_Some_iff)

lemma same_stack_depth_set:
  assumes "stack_depth_set_of opcode = Some s" "new_op \<in> set s"
  shows "stack_depth_set_of new_op = Some s"
  using stack_depth_set_of_member[OF assms(1)] assms(2)
    find_class_unique[OF stack_depth_sets_distinct]
  unfolding stack_depth_set_of_def by blast

lemma generate_random_opcode_step:
  "0 < depth \<Longrightarrow> generate_random_opcode depth opcode options g =
     (case random_choice (tuple_of_set options) g of
        Inl e \<Rightarrow> Inl e
      | Inr (new_op, g') \<Rightarrow>
          if new_op = opcode then generate_random_opcode (depth - 1) opcode options g'
          else Inr (new_op, g'))"
  by (cases depth) (auto split: sum.splits)

lemma generate_random_opcode_sound:
  "generate_random_opcode depth opcode options g = Inr (r, g') \<Longrightarrow>
   r \<noteq> opcode \<and> r \<in> set options"
proof (induction depth arbitrary: g)
  case 0
  then show ?case by simp
next
  case (Suc n)
  then show ?case
    by (auto simp: tuple_of_set_def split: sum.splits if_splits dest: random_choice_member)
qed

lemma generate_random_opcode_error:
  "generate_random_opcode depth opcode options g = Inl e \<Longrightarrow> options \<noteq> [] \<Longrightarrow>
   e = RecursionError"
proof (induction depth arbitrary: g)
  case 0
  then show ?case by simp
next
  case (Suc n)
  then show ?case
    by (auto simp: random_choice_def tuple_of_set_def split: sum.splits if_splits)
qed

subsection \<open>Substitution keeps the stack-effect class\<close>

text \<open>
  Claim C1: for an opcode that is eligible for substitution (in neither exempt set, not
  LOAD_CONST, member of one of the six fixed stack-effect sets), the opcode that
  \<open>randomize_opcode\<close> returns is a different opcode of the same stack-effect set. The
  call raises nothing but the interpreter's RecursionError, and it returns an opcode
  exactly when the random source picks an element of that set other than the original
  within the candidates that the recursion limit allows.
\<close>

theorem randomize_opcode_keeps_stack_effect_class:
  assumes "eligible opcode"
  shows "(\<forall>new_op g'. randomize_opcode depth opcode g = Inr (new_op, g') \<longrightarrow>
            new_op \<noteq> opcode \<and> stack_depth_set_of new_op = stack_depth_set_of opcode)
       \<and> (\<forall>e. randomize_opcode depth opcode g = Inl e \<longrightarrow> e = RecursionError)
       \<and> ((\<exists>y. randomize_opcode depth opcode g = Inr y) =
            (\<exists>s k. stack_depth_set_of opcode = Some s \<and> k < depth
               \<and> accepted (random_choice (tuple_of_set s)) opcode
                    (rng_after (random_choice (tuple_of_set s)) k g)))"
proof -
  from assms obtain s where s: "stack_depth_set_of opcode = Some s"
    by (auto simp: eligible_def)
  from assms s have run: "randomize_opcode depth opcode g = generate_random_opcode depth opcode s g"
    by (simp add: randomize_opcode_def eligible_def)
  from stack_depth_set_of_member[OF s] have ne: "s \<noteq> []"
    by auto
  have "new_op \<noteq> opcode \<and> stack_depth_set_of new_op = stack_depth_set_of opcode"
    if "randomize_opcode depth opcode g = Inr (new_op, g')" for new_op g'
  proof -
    from that run have "generate_random_opcode depth opcode s g = Inr (new_op, g')"
      by simp
    from generate_random_opcode_sound[OF this] same_stack_depth_set[OF s] s show ?thesis
      by simp
  qed
  moreover have "e = RecursionError" if "randomize_opcode depth opcode g = Inl e" for e
    using that run generate_random_opcode_error[of depth opcode s g e] ne by simp
  moreover have "(\<exists>y. randomize_opcode depth opcode g = Inr y) =
            (\<exists>s k. stack_depth_set_of opcode = Some s \<and> k < depth
               \<and> accepted (random_choice (tuple_of_set s)) opcode
                    (rng_after (random_choice (tuple_of_set s)) k g))"
  proof -
    have "random_choice (tuple_of_set s) g0 \<noteq> Inl e" for g0 :: rng and e
      using ne by (simp add: random_choice_def tuple_of_set_def)
    from resample_value_iff[OF generate_random_opcode_cases[of depth s opcode g] this]
    show ?thesis
      using run s by auto
  qed
  ultimately show ?thesis
    by blast
qed

lemma eligible_DUP_TOP_TWO: "eligible ''DUP_TOP_TWO''"
  by (simp add: eligible_def stack_depth_set_of_def stack_depth_sets_def INSTRS_WITH_BRANCHES_def
      INSTRS_WITH_OPARG_AFFECTING_STACK_def INSTRS_WITH_STACK_EFFECT_0_def
      INSTRS_WITH_STACK_EFFECT_1_def INSTRS_WITH_STACK_EFFECT_2_def)

lemma randomize_DUP_TOP_TWO:
  "randomize_opcode 1000 ''DUP_TOP_TWO'' (0 ## sconst 1)
     = Inr (''WITH_CLEANUP_START'', sconst 1)"
  by (simp add: randomize_opcode_def stack_depth_set_of_def stack_depth_sets_def
      INSTRS_WITH_BRANCHES_def INSTRS_WITH_OPARG_AFFECTING_STACK_def
      INSTRS_WITH_STACK_EFFECT_0_def INSTRS_WITH_STACK_EFFECT_1_def
      INSTRS_WITH_STACK_EFFECT_2_def generate_random_opcode_step random_choice_def
      tuple_of_set_def)

theorem randomize_opcode_keeps_stack_effect_class_witness:
  "eligible ''DUP_TOP_TWO''
   \<and> randomize_opcode 1000 ''DUP_TOP_TWO'' (0 ## sconst 1)
       = Inr (''WITH_CLEANUP_START'', sconst 1)
   \<and> stack_depth_set_of ''WITH_CLEANUP_START'' = stack_depth_set_of ''DUP_TOP_TWO''"
  using randomize_opcode_keeps_stack_effect_class[OF eligible_DUP_TOP_TWO,
      of 1000 "0 ## sconst 1"]
    eligible_DUP_TOP_TWO randomize_DUP_TOP_TWO
  by simp

subsection \<open>Resampling on a domain of one value\<close>

text \<open>A draw that always gives the original is never accepted.\<close>

lemma never_accepted:
  assumes "\<And>g. \<exists>g'. d g = Inr (original, g')"
  shows "\<not> accepted d original (rng_after d k g)"
proof (induction k arbitrary: g)
  case 0
  from assms[of g] show ?case by (auto simp: accepted_def)
next
  case (Suc k)
  from assms[of g] obtain g' where "d g = Inr (original, g')" by blast
  with Suc.IH[of g'] show ?case by simp
qed

lemma randint_single: "\<exists>g'. random_randint v v g = Inr (v, g')"
  by (simp add: random_randint_def)

lemma str_draw_empty: "\<exists>g'. random_str_draw 0 0 g = Inr ([], g')"
  by (simp add: random_str_draw_def random_randint_def)

lemma choice_single: "\<exists>g'. random_choice (tuple_of_set [x]) g = Inr (x, g')"
  by (simp add: random_choice_def tuple_of_set_def)

lemma generate_random_integer_single:
  "generate_random_integer depth v v v g = Inl RecursionError"
  using generate_random_integer_cases[of depth v v v g]
    never_accepted[of "random_randint v v" v k g for k, OF randint_single]
  by blast

lemma generate_random_string_single:
  "generate_random_string depth [] 0 0 g = Inl RecursionError"
  using generate_random_string_cases[of depth 0 0 "[]" g]
    never_accepted[of "random_str_draw 0 0" "[]" k g for k, OF str_draw_empty]
  by blast

lemma generate_random_opcode_single:
  "generate_random_opcode depth x [x] g = Inl RecursionError"
  using generate_random_opcode_cases[of depth "[x]" x g]
    never_accepted[of "random_choice (tuple_of_set [x])" x k g for k, OF choice_single]
  by blast

subsection \<open>Resampling on a domain of more than one value\<close>

lemma generate_random_integer_some_source:
  assumes "lower < upper" "0 < depth"
  shows "\<exists>g y. generate_random_integer depth original lower upper g = Inr y"
proof -
  define j :: nat where "j = (if original = lower then 1 else 0)"
  from assms have "j < nat (upper - lower + 1)"
    by (simp add: j_def)
  then have "lower + int (shd (sconst j) mod nat (upper - lower + 1)) \<noteq> original"
    by (simp add: j_def)
  with assms have "\<exists>y. generate_random_integer depth original lower upper (sconst j) = Inr y"
    by (subst generate_random_integer_step) simp_all
  then show ?thesis
    by blast
qed

lemma generate_random_opcode_some_source:
  assumes "x \<in> set options" "x \<noteq> opcode" "0 < depth"
  shows "\<exists>g y. generate_random_opcode depth opcode options g = Inr y"
proof -
  from assms(1) have "x \<in> set (tuple_of_set options)"
    by (simp add: tuple_of_set_def)
  then obtain i where i: "i < length (tuple_of_set options)" "tuple_of_set options ! i = x"
    by (auto simp: in_set_conv_nth)
  then have "random_choice (tuple_of_set options) (sconst i) = Inr (x, sconst i)"
    by (auto simp: random_choice_def)
  with assms(2,3) have "generate_random_opcode depth opcode options (sconst i) = Inr (x, sconst i)"
    by (subst generate_random_opcode_step) simp_all
  then show ?thesis
    by blast
qed

lemma alphabet_facts:
  "length (ascii_letters @ digits @ punctuation) = 94"
  "(ascii_letters @ digits @ punctuation) ! 0 = CHR ''a''"
  "(ascii_letters @ digits @ punctuation) ! Suc 0 = CHR ''b''"
  by (simp_all add: ascii_letters_def digits_def punctuation_def)

lemma random_chars_constant_source:
  assumes "b < 94" "shd g = b" "stl g = g"
  shows "random_chars n g = Inr (replicate n ((ascii_letters @ digits @ punctuation) ! b), g)"
proof (induction n)
  case 0
  show ?case by simp
next
  case (Suc n)
  have "ascii_letters @ digits @ punctuation \<noteq> []"
    using alphabet_facts(1) by auto
  then have "random_choice (ascii_letters @ digits @ punctuation) g =
      Inr ((ascii_letters @ digits @ punctuation) ! b, g)"
    using assms alphabet_facts(1) by (simp add: random_choice_def)
  with Suc show ?case by simp
qed

lemma generate_random_string_step:
  "0 < depth \<Longrightarrow> generate_random_string depth original lower upper g =
     (case random_str_draw lower upper g of
        Inl e \<Rightarrow> Inl e
      | Inr (random_str, g') \<Rightarrow>
          if random_str = original
          then generate_random_string (depth - 1) original lower upper g'
          else Inr (random_str, g'))"
  by (cases depth) (auto split: sum.splits)

lemma generate_random_string_some_source:
  assumes "lower \<le> upper" "0 < upper" "0 < depth"
  shows "\<exists>g y. generate_random_string depth original lower upper g = Inr y"
proof -
  define b :: nat where "b = (if original \<noteq> [] \<and> hd original = CHR ''a'' then 1 else 0)"
  define c where "c = (ascii_letters @ digits @ punctuation) ! b"
  have b: "b < 94" by (simp add: b_def)
  have c: "original = [] \<or> hd original \<noteq> c"
    by (auto simp: b_def c_def alphabet_facts)
  define g where "g = nat (upper - lower) ## sconst b"
  from assms have "random_randint lower upper g = Inr (upper, sconst b)"
    by (simp add: random_randint_def g_def)
  then have "random_str_draw lower upper g = Inr (replicate (nat upper) c, sconst b)"
    by (simp add: random_str_draw_def random_chars_constant_source[OF b] c_def)
  moreover from assms(2) c have "replicate (nat upper) c \<noteq> original"
    by (cases "nat upper") auto
  ultimately have "generate_random_string depth original lower upper g
      = Inr (replicate (nat upper) c, sconst b)"
    using assms(3) by (subst generate_random_string_step) simp_all
  then show ?thesis
    by blast
qed

subsection \<open>Termination of the resampling helpers\<close>

text \<open>
  Claim C7: every call of a resampling helper ends. It draws at most \<open>depth\<close> candidates:
  its result is the outcome of the first candidate that is accepted (a value other than
  the original, or the exception of the draw), or RecursionError when \<open>depth\<close> candidates
  in a row equalled the original. On a domain of more than one value, with room for one
  call, some random source gives a value. On a domain of exactly one value that equals
  the original (\<open>randint(v, v)\<close> with original \<open>v\<close>, strings of length 0 with the empty
  original, a one-element option set holding the original) the call does not hang: it
  ends with RecursionError, whatever the random source.
\<close>

theorem resampling_ends_within_recursion_limit:
  "((\<exists>k<depth. accepted (random_randint lower upper) original
                   (rng_after (random_randint lower upper) k g)
        \<and> (\<forall>j<k. \<not> accepted (random_randint lower upper) original
                      (rng_after (random_randint lower upper) j g))
        \<and> generate_random_integer depth original lower upper g =
            random_randint lower upper (rng_after (random_randint lower upper) k g))
     \<or> ((\<forall>j<depth. \<not> accepted (random_randint lower upper) original
                        (rng_after (random_randint lower upper) j g))
        \<and> generate_random_integer depth original lower upper g = Inl RecursionError))
   \<and> ((\<exists>k<depth. accepted (random_str_draw lower_len upper_len) original_str
                   (rng_after (random_str_draw lower_len upper_len) k g)
        \<and> (\<forall>j<k. \<not> accepted (random_str_draw lower_len upper_len) original_str
                      (rng_after (random_str_draw lower_len upper_len) j g))
        \<and> generate_random_string depth original_str lower_len upper_len g =
            random_str_draw lower_len upper_len
              (rng_after (random_str_draw lower_len upper_len) k g))
     \<or> ((\<forall>j<depth. \<not> accepted (random_str_draw lower_len upper_len) original_str
                        (rng_after (random_str_draw lower_len upper_len) j g))
        \<and> generate_random_string depth original_str lower_len upper_len g
            = Inl RecursionError))
   \<and> ((\<exists>k<depth. accepted (random_choice (tuple_of_set options)) opcode
                   (rng_after (random_choice (tuple_of_set options)) k g)
        \<and> (\<forall>j<k. \<not> accepted (random_choice (tuple_of_set options)) opcode
                      (rng_after (random_choice (tuple_of_set options)) j g))
        \<and> generate_random_opcode depth opcode options g =
            random_choice (tuple_of_set options)
              (rng_after (random_choice (tuple_of_set options)) k g))
     \<or> ((\<forall>j<depth. \<not> accepted (random_choice (tuple_of_set options)) opcode
                        (rng_after (random_choice (tuple_of_set options)) j g))
        \<and> generate_random_opcode depth opcode options g = Inl RecursionError))
   \<and> (lower < upper \<and> 0 < depth \<longrightarrow>
        (\<exists>g y. generate_random_integer depth original lower upper g = Inr y))
   \<and> (lower_len \<le> upper_len \<and> 0 < upper_len \<and> 0 < depth \<longrightarrow>
        (\<exists>g y. generate_random_string depth original_str lower_len upper_len g = Inr y))
   \<and> ((\<exists>x \<in> set options. x \<noteq> opcode) \<and> 0 < depth \<longrightarrow>
        (\<exists>g y. generate_random_opcode depth opcode options g = Inr y))
   \<and> generate_random_integer depth v v v g = Inl RecursionError
   \<and> generate_random_string depth [] 0 0 g = Inl RecursionError
   \<and> generate_random_opcode depth opcode [opcode] g = Inl RecursionError"
  using generate_random_integer_some_source generate_random_string_some_source
    generate_random_opcode_some_source
  by (intro conjI impI generate_random_integer_cases generate_random_string_cases
      generate_random_opcode_cases generate_random_integer_single
      generate_random_string_single generate_random_opcode_single) blast+

theorem resampling_ends_within_recursion_limit_witness:
  "(0::int) < 12 \<and> (0::nat) < 1000
   \<and> (\<exists>g y. generate_random_integer 1000 2 0 12 g = Inr y)
   \<and> (0::int) \<le> 100 \<and> (0::int) < 100
   \<and> (\<exists>g y. generate_random_string 1000 [] 0 100 g = Inr y)
   \<and> (\<exists>x \<in> set [''DUP_TOP_TWO'', ''WITH_CLEANUP_START'']. x \<noteq> ''DUP_TOP_TWO'')
   \<and> (\<exists>g y. generate_random_opcode 1000 ''DUP_TOP_TWO''
          [''DUP_TOP_TWO'', ''WITH_CLEANUP_START''] g = Inr y)
   \<and> generate_random_integer 1000 5 5 5 (sconst 0) = Inl RecursionError"
proof -
  have h1: "(0::int) < 12 \<and> (0::nat) < 1000"
    and h2: "(0::int) \<le> 100 \<and> (0::int) < 100 \<and> (0::nat) < 1000"
    by simp_all
  have h3: "(\<exists>x \<in> set [''DUP_TOP_TWO'', ''WITH_CLEANUP_START'']. x \<noteq> ''DUP_TOP_TWO'')
      \<and> (0::nat) < 1000"
    by simp
  from h1 h2 h3
    resampling_ends_within_recursion_limit[of 1000 0 12 2 "sconst 0" 0 100 "[]"
      "[''DUP_TOP_TWO'', ''WITH_CLEANUP_START'']" "''DUP_TOP_TWO''" 5]
  show ?thesis
    by blast
qed

subsection \<open>The stack-effect sets are not a partition\<close>

lemma branch_overlaps:
  "filter (\<lambda>x. x \<in> set INSTRS_WITH_BRANCHES)
     (INSTRS_WITH_STACK_EFFECT_0 @ INSTRS_WITH_STACK_EFFECT_1 @ INSTRS_WITH_STACK_EFFECT_2
      @ INSTRS_WITH_STACK_EFFECT_NEG_1 @ INSTRS_WITH_STACK_EFFECT_NEG_2
      @ INSTRS_WITH_STACK_EFFECT_NEG_3 @ INSTRS_WITH_OPARG_AFFECTING_STACK) =
   [''JUMP_FORWARD'', ''JUMP_ABSOLUTE'', ''RETURN_VALUE'', ''POP_JUMP_IF_FALSE'',
    ''POP_JUMP_IF_TRUE'', ''RAISE_VARARGS'']"
  unfolding INSTRS_WITH_STACK_EFFECT_0_def INSTRS_WITH_STACK_EFFECT_1_def
    INSTRS_WITH_STACK_EFFECT_2_def INSTRS_WITH_STACK_EFFECT_NEG_1_def
    INSTRS_WITH_STACK_EFFECT_NEG_2_def INSTRS_WITH_STACK_EFFECT_NEG_3_def
    INSTRS_WITH_OPARG_AFFECTING_STACK_def INSTRS_WITH_BRANCHES_def
  by simp

lemma eligible_NOP: "eligible ''NOP''"
  by (simp add: eligible_def stack_depth_set_of_def stack_depth_sets_def INSTRS_WITH_BRANCHES_def
      INSTRS_WITH_OPARG_AFFECTING_STACK_def INSTRS_WITH_STACK_EFFECT_0_def)

lemma randomize_NOP:
  "randomize_opcode 1000 ''NOP'' (sconst 18) = Inr (''JUMP_FORWARD'', sconst 18)"
  by (simp add: randomize_opcode_def stack_depth_set_of_def stack_depth_sets_def
      INSTRS_WITH_BRANCHES_def INSTRS_WITH_OPARG_AFFECTING_STACK_def
      INSTRS_WITH_STACK_EFFECT_0_def generate_random_opcode_step random_choice_def
      tuple_of_set_def)

text \<open>
  Claim C5 says that the fixed-effect sets, the variable-effect set and the branch set
  are pairwise disjoint, and that therefore a substitution never selects a branch opcode.
  JUMP_FORWARD is listed both in \<open>INSTRS_WITH_BRANCHES\<close> and in
  \<open>INSTRS_WITH_STACK_EFFECT_0\<close>, and the eligible opcode NOP is replaced by it when the
  random source picks position 18 of the effect-0 set.
\<close>

theorem branch_opcode_in_fixed_class:
  "''JUMP_FORWARD'' \<in> set INSTRS_WITH_BRANCHES
   \<and> ''JUMP_FORWARD'' \<in> set INSTRS_WITH_STACK_EFFECT_0
   \<and> eligible ''NOP''
   \<and> randomize_opcode 1000 ''NOP'' (sconst 18) = Inr (''JUMP_FORWARD'', sconst 18)"
  using eligible_NOP randomize_NOP
  by (simp add: INSTRS_WITH_BRANCHES_def INSTRS_WITH_STACK_EFFECT_0_def)

text \<open>
  Claim C5 as amended: the six fixed-effect sets and the variable-effect set are pairwise
  disjoint (their concatenation has no repeated opcode). The branch set overlaps them in
  exactly six opcodes: JUMP_FORWARD and JUMP_ABSOLUTE (effect 0), RETURN_VALUE,
  POP_JUMP_IF_FALSE and POP_JUMP_IF_TRUE (effect -1) and RAISE_VARARGS (variable effect).
  \<open>randomize_opcode\<close> tests the branch set and the variable-effect set first, so an opcode
  of either is returned unchanged.
\<close>

theorem stack_effect_sets_overlap_only_with_branches:
  "distinct (INSTRS_WITH_STACK_EFFECT_0 @ INSTRS_WITH_STACK_EFFECT_1
       @ INSTRS_WITH_STACK_EFFECT_2 @ INSTRS_WITH_STACK_EFFECT_NEG_1
       @ INSTRS_WITH_STACK_EFFECT_NEG_2 @ INSTRS_WITH_STACK_EFFECT_NEG_3
       @ INSTRS_WITH_OPARG_AFFECTING_STACK)
   \<and> filter (\<lambda>x. x \<in> set INSTRS_WITH_BRANCHES)
       (INSTRS_WITH_STACK_EFFECT_0 @ INSTRS_WITH_STACK_EFFECT_1
        @ INSTRS_WITH_STACK_EFFECT_2 @ INSTRS_WITH_STACK_EFFECT_NEG_1
        @ INSTRS_WITH_STACK_EFFECT_NEG_2 @ INSTRS_WITH_STACK_EFFECT_NEG_3
        @ INSTRS_WITH_OPARG_AFFECTING_STACK) =
      [''JUMP_FORWARD'', ''JUMP_ABSOLUTE'', ''RETURN_VALUE'', ''POP_JUMP_IF_FALSE'',
       ''POP_JUMP_IF_TRUE'', ''RAISE_VARARGS'']
   \<and> (opcode \<in> set INSTRS_WITH_BRANCHES \<or> opcode \<in> set INSTRS_WITH_OPARG_AFFECTING_STACK
        \<longrightarrow> randomize_opcode depth opcode g = Inr (opcode, g))"
  using fixed_sets_distinct branch_overlaps
  by (simp add: randomize_opcode_def)

theorem stack_effect_sets_overlap_only_with_branches_witness:
  "''RETURN_VALUE'' \<in> set INSTRS_WITH_BRANCHES
   \<and> randomize_opcode 1000 ''RETURN_VALUE'' (sconst 0) = Inr (''RETURN_VALUE'', sconst 0)"
proof -
  have h: "''RETURN_VALUE'' \<in> set INSTRS_WITH_BRANCHES"
    by (simp add: INSTRS_WITH_BRANCHES_def)
  with stack_effect_sets_overlap_only_with_branches[of "''RETURN_VALUE''" 1000 "sconst 0"]
  show ?thesis by blast
qed

subsection \<open>Constant-pool keys and the sign of zero\<close>

lemma sign_keys_differ:
  "bit x 63 \<noteq> bit y 63 \<Longrightarrow> \<not> py_eq (pyassem_sign x) (pyassem_sign y)"
  by (auto simp: pyassem_sign_def num_eq_def numeric_value_def float_value_def)

lemma key_lists_differ:
  assumes "\<And>x w. x \<in> set xs \<Longrightarrow> sign_of_zero_differs x w \<Longrightarrow>
      \<not> py_eq (get_const_key x) (get_const_key w)"
  shows "sign_of_zero_differs_list xs ys \<Longrightarrow>
      \<not> py_eq_list (map get_const_key xs) (map get_const_key ys)"
  using assms
proof (induction xs arbitrary: ys)
  case Nil
  then show ?case by simp
next
  case (Cons x xs)
  then show ?case by (cases ys) auto
qed

lemma keys_differ:
  "sign_of_zero_differs v w \<Longrightarrow> \<not> py_eq (get_const_key v) (get_const_key w)"
proof (induction v arbitrary: w)
  case (PFloat x)
  then show ?case
    by (cases w) (auto simp: sign_keys_differ type_of_def)
next
  case (PTuple xs)
  then obtain ys where w: "w = PTuple ys" and d: "sign_of_zero_differs_list xs ys"
    by (cases w) auto
  from key_lists_differ[OF PTuple.IH d] show ?case
    by (simp add: w type_of_def)
qed simp_all

text \<open>
  Claim C8: \<open>get_const_key\<close> gives \<open>0.0\<close> and \<open>-0.0\<close> different keys, and gives different
  keys to two values that hold zeros of opposite sign at some position reached through
  tuples, although such values compare equal.
\<close>

theorem get_const_key_separates_signed_zeros:
  "\<not> py_eq (get_const_key (PFloat 0)) (get_const_key (PFloat 0x8000000000000000))
   \<and> (sign_of_zero_differs v w \<longrightarrow> \<not> py_eq (get_const_key v) (get_const_key w))"
proof -
  have "sign_of_zero_differs (PFloat 0) (PFloat 0x8000000000000000)"
    by simp
  then show ?thesis using keys_differ by blast
qed

theorem get_const_key_separates_signed_zeros_witness:
  "py_eq (PTuple [PInt 1, PTuple [PFloat 0]]) (PTuple [PInt 1, PTuple [PFloat 0x8000000000000000]])
   \<and> sign_of_zero_differs (PTuple [PInt 1, PTuple [PFloat 0]])
        (PTuple [PInt 1, PTuple [PFloat 0x8000000000000000]])
   \<and> \<not> py_eq (get_const_key (PTuple [PInt 1, PTuple [PFloat 0]]))
          (get_const_key (PTuple [PInt 1, PTuple [PFloat 0x8000000000000000]]))"
proof -
  have d: "sign_of_zero_differs (PTuple [PInt 1, PTuple [PFloat 0]])
        (PTuple [PInt 1, PTuple [PFloat 0x8000000000000000]])"
    by simp
  have e: "py_eq (PTuple [PInt 1, PTuple [PFloat 0]])
      (PTuple [PInt 1, PTuple [PFloat 0x8000000000000000]])"
    by (simp add: num_eq_def numeric_value_def float_value_def)
  from get_const_key_separates_signed_zeros[of "PTuple [PInt 1, PTuple [PFloat 0]]"
      "PTuple [PInt 1, PTuple [PFloat 0x8000000000000000]]"] d e
  show ?thesis by blast
qed

subsection \<open>Concrete draws of a name\<close>

lemma alphabet_23: "(ascii_letters @ digits @ punctuation) ! 23 = CHR ''x''"
  by (simp add: ascii_letters_def)

lemma alphabet_24: "(ascii_letters @ digits @ punctuation) ! 24 = CHR ''y''"
  by (simp add: ascii_letters_def)

lemma random_name_single:
  assumes "c < 94" "s \<noteq> [(ascii_letters @ digits @ punctuation) ! c]" "0 < depth"
  shows "randomize_variable (PStr s) depth (1 ## c ## g) =
     Inr (PStr [(ascii_letters @ digits @ punctuation) ! c], g)"
proof -
  have "ascii_letters @ digits @ punctuation \<noteq> []"
    using alphabet_facts(1) by auto
  then have "random_chars (Suc 0) (c ## g) = Inr ([(ascii_letters @ digits @ punctuation) ! c], g)"
    using assms(1) alphabet_facts(1) by (simp add: random_choice_def)
  then have "random_str_draw 0 100 (1 ## c ## g) =
      Inr ([(ascii_letters @ digits @ punctuation) ! c], g)"
    by (simp add: random_str_draw_def random_randint_def)
  then have "generate_random_string depth s 0 100 (1 ## c ## g) =
      Inr ([(ascii_letters @ digits @ punctuation) ! c], g)"
    using assms(2,3) by (subst generate_random_string_step) auto
  then show ?thesis
    by (simp add: bind_result_def STR_LEN_LOWER_BOUND_def STR_LEN_UPPER_BOUND_def)
qed

lemma random_name_x:
  "randomize_variable (PStr []) 1000 (1 ## 23 ## g) = Inr (PStr ''x'', g)"
  using random_name_single[of 23 "[]" 1000 g] alphabet_23 by simp

lemma random_name_y:
  "randomize_variable (PStr []) 1000 (1 ## 24 ## g) = Inr (PStr ''y'', g)"
  using random_name_single[of 24 "[]" 1000 g] alphabet_24 by simp

subsection \<open>Index stability of the tables\<close>

text \<open>
  Claim C6 says that every table mutation keeps indices stable: an entry is replaced at
  its own index, and a substitution reuses the vacated index, so that no index is left
  unused or used twice. \<open>replace_const_var\<close> does store the new key under the old index.
  \<open>replace_name_var\<close> and \<open>generate_oparg_for_randomized_opcode\<close> delete the old key and
  then insert the new one under the number of remaining entries, which is the vacated
  index only when the deleted entry was the last one. With the names \<open>a\<close> at index 0 and
  \<open>b\<close> at index 1, replacing \<open>a\<close> leaves \<open>b\<close> and the new name both at index 1 and no
  name at index 0, on the randomization path and on the substitution path alike.
\<close>

theorem name_replacement_duplicates_index:
  "replace_name_var (PStr ''a'') (PStr ''x'') [(PStr ''a'', 0), (PStr ''b'', 1)]
     = Inr (1, [(PStr ''b'', 1), (PStr ''x'', 1)])
   \<and> generate_oparg_for_randomized_opcode 1000 ''LOAD_NAME'' ''LOAD_GLOBAL'' (PStr ''a'')
       \<lparr>g_consts = [], g_names = [(PStr ''a'', 0), (PStr ''b'', 1)], g_varnames = [],
        g_freevars = [], g_cellvars = [], g_closure = []\<rparr> (1 ## 23 ## sconst 0)
     = Inr (PStr ''x'',
         \<lparr>g_consts = [], g_names = [(PStr ''b'', 1), (PStr ''x'', 1)], g_varnames = [],
          g_freevars = [], g_cellvars = [], g_closure = []\<rparr>, sconst 0)"
  using random_name_x[of "sconst 0"]
  by (simp add: replace_name_var_def dict_contains_def dict_lookup_def get_index_def
      generate_oparg_for_randomized_opcode_def delete_original_oparg_def new_oparg_for_def
      INSTRS_WITH_OPARG_IN_CONSTS_def INSTRS_WITH_OPARG_IN_NAMES_def bind_result_def)

subsection \<open>Dictionaries and table sizes\<close>

lemma py_subset_refl_aux:
  "(\<And>x. x \<in> set xs \<Longrightarrow> py_eq x x) \<Longrightarrow> set xs \<subseteq> set ys \<Longrightarrow> py_subset xs ys"
  by (induction xs) (auto simp: list_ex_iff)

lemma py_eq_list_refl_aux:
  "(\<And>x. x \<in> set xs \<Longrightarrow> py_eq x x) \<Longrightarrow> py_eq_list xs xs"
  by (induction xs) auto

lemma py_eq_refl: "py_eq v v"
proof (induction v)
  case (PTuple xs)
  then show ?case by (simp add: py_eq_list_refl_aux)
next
  case (PFrozenset xs)
  then show ?case by (simp add: py_subset_refl_aux)
qed (simp_all add: num_eq_def numeric_value_def)

lemma dict_delete_length:
  "dict_delete d k = Inr d' \<Longrightarrow> length d = Suc (length d')"
  by (induction d arbitrary: d') (auto split: if_splits sum.splits)

lemma dict_store_nonempty: "dict_store d k v \<noteq> []"
  by (cases d) auto

lemma get_index_nonempty: "snd (get_index item t) \<noteq> []"
  by (cases t) (auto simp: get_index_def dict_lookup_def split: option.splits)

lemma oparg_tables_distinct:
  "distinct (INSTRS_WITH_OPARG_IN_CONSTS @ INSTRS_WITH_OPARG_IN_NAMES
     @ INSTRS_WITH_OPARG_IN_VARNAMES @ INSTRS_WITH_OPARG_IN_CLOSURE)"
  unfolding INSTRS_WITH_OPARG_IN_CONSTS_def INSTRS_WITH_OPARG_IN_NAMES_def
    INSTRS_WITH_OPARG_IN_VARNAMES_def INSTRS_WITH_OPARG_IN_CLOSURE_def
  by simp

lemma delete_original_oparg_sizes:
  assumes "can_replace_oparg original_opcode (g_consts t) (g_names t) (g_varnames t) (g_closure t)"
    and "delete_original_oparg original_opcode oparg t = Inr t'"
  shows "(original_opcode \<in> set INSTRS_WITH_OPARG_IN_CONSTS \<longrightarrow> g_consts t' \<noteq> [])
       \<and> (original_opcode \<in> set INSTRS_WITH_OPARG_IN_NAMES \<longrightarrow> g_names t' \<noteq> [])
       \<and> (original_opcode \<in> set INSTRS_WITH_OPARG_IN_VARNAMES \<longrightarrow> g_varnames t' \<noteq> [])
       \<and> (original_opcode \<in> set INSTRS_WITH_OPARG_IN_CLOSURE
            \<and> length (g_closure t) \<le> length (g_freevars t) + length (g_cellvars t)
            \<longrightarrow> g_freevars t' \<noteq> [] \<or> g_cellvars t' \<noteq> [])"
  using assms oparg_tables_distinct
  by (auto simp: can_replace_oparg_def delete_original_oparg_def
      split: if_splits sum.splits dest!: dict_delete_length)

lemma new_oparg_for_sizes:
  assumes "new_oparg_for depth randomized_opcode oparg t g = Inr (new_oparg, t', g')"
  shows "(g_consts t \<noteq> [] \<longrightarrow> g_consts t' \<noteq> []) \<and> (g_names t \<noteq> [] \<longrightarrow> g_names t' \<noteq> [])
       \<and> (g_varnames t \<noteq> [] \<longrightarrow> g_varnames t' \<noteq> [])
       \<and> (g_freevars t \<noteq> [] \<longrightarrow> g_freevars t' \<noteq> [])
       \<and> g_cellvars t' = g_cellvars t
       \<and> (randomized_opcode \<in> set INSTRS_WITH_OPARG_IN_CONSTS \<longrightarrow> g_consts t' \<noteq> [])
       \<and> (randomized_opcode \<in> set INSTRS_WITH_OPARG_IN_NAMES \<longrightarrow> g_names t' \<noteq> [])
       \<and> (randomized_opcode \<in> set INSTRS_WITH_OPARG_IN_VARNAMES \<longrightarrow> g_varnames t' \<noteq> [])
       \<and> (randomized_opcode \<in> set INSTRS_WITH_OPARG_IN_CLOSURE \<longrightarrow> g_freevars t' \<noteq> [])"
  using assms oparg_tables_distinct
  by (auto simp: new_oparg_for_def bind_result_def dict_store_nonempty get_index_nonempty
      split: if_splits sum.splits)

subsection \<open>The feasibility guard\<close>

lemma randomize_LOAD_DEREF:
  "randomize_opcode 1000 ''LOAD_DEREF'' (sconst 7) = Inr (''LOAD_FAST'', sconst 7)"
  by (simp add: randomize_opcode_def stack_depth_set_of_def stack_depth_sets_def
      INSTRS_WITH_BRANCHES_def INSTRS_WITH_OPARG_AFFECTING_STACK_def
      INSTRS_WITH_STACK_EFFECT_0_def INSTRS_WITH_STACK_EFFECT_1_def
      generate_random_opcode_step random_choice_def tuple_of_set_def)

text \<open>
  Claim C2 says that after a guarded substitution none of the five tables it touched is
  empty. For an opcode whose operand is a captured variable, \<open>can_replace_oparg\<close> measures
  the combined table \<open>closure\<close>, while the deletion is made in the free-variable table
  or in the cell-variable table. With one free variable \<open>a\<close> and one cell variable \<open>b\<close>
  the guard passes, LOAD_DEREF \<open>a\<close> is replaced by LOAD_FAST, and the free-variable table
  is left empty.
\<close>

theorem substitution_empties_freevars:
  "randomize_opcode 1000 ''LOAD_DEREF'' (sconst 7) = Inr (''LOAD_FAST'', sconst 7)
   \<and> can_replace_oparg ''LOAD_DEREF'' [(PTuple [PType ''NoneType'', PNone], 0)] [] []
        [(PStr ''b'', 0), (PStr ''a'', 1)]
   \<and> generate_oparg_for_randomized_opcode 1000 ''LOAD_DEREF'' ''LOAD_FAST'' (PStr ''a'')
        \<lparr>g_consts = [(PTuple [PType ''NoneType'', PNone], 0)], g_names = [],
         g_varnames = [], g_freevars = [(PStr ''a'', 0)], g_cellvars = [(PStr ''b'', 0)],
         g_closure = [(PStr ''b'', 0), (PStr ''a'', 1)]\<rparr> (1 ## 23 ## sconst 0)
      = Inr (PStr ''x'',
         \<lparr>g_consts = [(PTuple [PType ''NoneType'', PNone], 0)], g_names = [],
          g_varnames = [(PStr ''x'', 0)], g_freevars = [], g_cellvars = [(PStr ''b'', 0)],
          g_closure = [(PStr ''b'', 0), (PStr ''a'', 1)]\<rparr>, sconst 0)"
  using random_name_x[of "sconst 0"] randomize_LOAD_DEREF
  by (simp add: can_replace_oparg_def dict_contains_def dict_lookup_def get_index_def
      generate_oparg_for_randomized_opcode_def delete_original_oparg_def new_oparg_for_def
      INSTRS_WITH_OPARG_IN_CONSTS_def INSTRS_WITH_OPARG_IN_NAMES_def
      INSTRS_WITH_OPARG_IN_VARNAMES_def INSTRS_WITH_OPARG_IN_CLOSURE_def bind_result_def)

text \<open>
  Claim C2 as amended: after a substitution that the guard allowed, the constant pool,
  the names table and the local-variable table are not empty when the substitution
  deleted from them or inserted into them, and the free-variable table is not empty when
  the new opcode received an entry in it. For a deleted captured variable the guard
  bounds the combined closure table only: if that table lists no more entries than the
  free-variable and cell-variable tables together, one of these two is left non-empty.
\<close>

theorem guarded_substitution_keeps_tables_nonempty:
  assumes "can_replace_oparg original_opcode (g_consts t) (g_names t) (g_varnames t)
             (g_closure t)"
    and "generate_oparg_for_randomized_opcode depth original_opcode randomized_opcode oparg
           t g = Inr (new_oparg, t', g')"
  shows "(original_opcode \<in> set INSTRS_WITH_OPARG_IN_CONSTS
            \<or> randomized_opcode \<in> set INSTRS_WITH_OPARG_IN_CONSTS \<longrightarrow> g_consts t' \<noteq> [])
       \<and> (original_opcode \<in> set INSTRS_WITH_OPARG_IN_NAMES
            \<or> randomized_opcode \<in> set INSTRS_WITH_OPARG_IN_NAMES \<longrightarrow> g_names t' \<noteq> [])
       \<and> (original_opcode \<in> set INSTRS_WITH_OPARG_IN_VARNAMES
            \<or> randomized_opcode \<in> set INSTRS_WITH_OPARG_IN_VARNAMES \<longrightarrow> g_varnames t' \<noteq> [])
       \<and> (randomized_opcode \<in> set INSTRS_WITH_OPARG_IN_CLOSURE \<longrightarrow> g_freevars t' \<noteq> [])
       \<and> (original_opcode \<in> set INSTRS_WITH_OPARG_IN_CLOSURE
            \<and> length (g_closure t) \<le> length (g_freevars t) + length (g_cellvars t)
            \<longrightarrow> g_freevars t' \<noteq> [] \<or> g_cellvars t' \<noteq> [])"
proof -
  from assms(2) obtain t1 where del: "delete_original_oparg original_opcode oparg t = Inr t1"
    and new: "new_oparg_for depth randomized_opcode oparg t1 g = Inr (new_oparg, t', g')"
    by (auto simp: generate_oparg_for_randomized_opcode_def split: sum.splits)
  from delete_original_oparg_sizes[OF assms(1) del] new_oparg_for_sizes[OF new]
  show ?thesis
    by auto
qed

theorem guarded_substitution_keeps_tables_nonempty_witness:
  "can_replace_oparg ''LOAD_NAME'' [] [(PStr ''a'', 0), (PStr ''b'', 1)] [] []
   \<and> generate_oparg_for_randomized_opcode 1000 ''LOAD_NAME'' ''LOAD_FAST'' (PStr ''a'')
        \<lparr>g_consts = [], g_names = [(PStr ''a'', 0), (PStr ''b'', 1)], g_varnames = [],
         g_freevars = [], g_cellvars = [], g_closure = []\<rparr> (1 ## 23 ## sconst 0)
      = Inr (PStr ''x'',
         \<lparr>g_consts = [], g_names = [(PStr ''b'', 1)], g_varnames = [(PStr ''x'', 0)],
          g_freevars = [], g_cellvars = [], g_closure = []\<rparr>, sconst 0)
   \<and> g_names \<lparr>g_consts = [], g_names = [(PStr ''b'', 1)], g_varnames = [(PStr ''x'', 0)],
          g_freevars = [], g_cellvars = [], g_closure = []\<rparr> \<noteq> []
   \<and> g_varnames \<lparr>g_consts = [], g_names = [(PStr ''b'', 1)], g_varnames = [(PStr ''x'', 0)],
          g_freevars = [], g_cellvars = [], g_closure = []\<rparr> \<noteq> []"
proof -
  let ?t = "\<lparr>g_consts = [], g_names = [(PStr ''a'', 0), (PStr ''b'', 1)], g_varnames = [],
         g_freevars = [], g_cellvars = [], g_closure = []\<rparr>"
  let ?t' = "\<lparr>g_consts = [], g_names = [(PStr ''b'', 1)], g_varnames = [(PStr ''x'', 0)],
          g_freevars = [], g_cellvars = [], g_closure = []\<rparr>"
  have guard: "can_replace_oparg ''LOAD_NAME'' (g_consts ?t) (g_names ?t) (g_varnames ?t)
      (g_closure ?t)"
    by (simp add: can_replace_oparg_def INSTRS_WITH_OPARG_IN_CONSTS_def
        INSTRS_WITH_OPARG_IN_NAMES_def)
  have run: "generate_oparg_for_randomized_opcode 1000 ''LOAD_NAME'' ''LOAD_FAST''
      (PStr ''a'') ?t (1 ## 23 ## sconst 0) = Inr (PStr ''x'', ?t', sconst 0)"
    using random_name_x[of "sconst 0"]
    by (simp add: dict_contains_def dict_lookup_def get_index_def
        generate_oparg_for_randomized_opcode_def delete_original_oparg_def new_oparg_for_def
        INSTRS_WITH_OPARG_IN_CONSTS_def INSTRS_WITH_OPARG_IN_NAMES_def
        INSTRS_WITH_OPARG_IN_VARNAMES_def bind_result_def)
  have mem: "''LOAD_NAME'' \<in> set INSTRS_WITH_OPARG_IN_NAMES"
    "''LOAD_FAST'' \<in> set INSTRS_WITH_OPARG_IN_VARNAMES"
    by (simp_all add: INSTRS_WITH_OPARG_IN_NAMES_def INSTRS_WITH_OPARG_IN_VARNAMES_def)
  from guarded_substitution_keeps_tables_nonempty[OF guard run] mem
  have "g_names ?t' \<noteq> [] \<and> g_varnames ?t' \<noteq> []"
    by blast
  with guard run show ?thesis
    by simp
qed

subsection \<open>Operand randomization: what can be raised, and the mutation record\<close>

lemma random_chars_no_error: "random_chars n g \<noteq> Inl e"
proof (induction n arbitrary: g)
  case 0
  show ?case by simp
next
  case (Suc n)
  have "ascii_letters @ digits @ punctuation \<noteq> []"
    using alphabet_facts(1) by auto
  then show ?case
    using Suc by (auto simp: random_choice_def split: sum.splits)
qed

lemma random_str_draw_no_error: "lower \<le> upper \<Longrightarrow> random_str_draw lower upper g \<noteq> Inl e"
  by (simp add: random_str_draw_def random_randint_def random_chars_no_error)

lemma generate_random_string_error:
  "generate_random_string depth original lower upper g = Inl e \<Longrightarrow> lower \<le> upper \<Longrightarrow>
   e = RecursionError"
proof (induction depth arbitrary: g)
  case 0
  then show ?case by simp
next
  case (Suc n)
  then show ?case
    using random_str_draw_no_error[of lower upper g]
    by (auto split: sum.splits if_splits)
qed

lemma randomize_variables_error_aux:
  "\<forall>x \<in> set xs. \<forall>g. randomize_variable x depth g = Inl e \<longrightarrow> e = RecursionError \<Longrightarrow>
   randomize_variables xs depth g = Inl e \<Longrightarrow> e = RecursionError"
proof (induction xs arbitrary: g)
  case Nil
  then show ?case by simp
next
  case (Cons x xs)
  show ?case
  proof (cases "randomize_variable x depth g")
    case (Inl e')
    with Cons.prems(2) have "e' = e"
      by (simp add: bind_result_def)
    with Inl Cons.prems(1) show ?thesis
      by auto
  next
    case (Inr p)
    obtain y g' where p: "p = (y, g')" by (cases p)
    with Inr Cons.prems(2) have "randomize_variables xs depth g' = Inl e"
      by (auto simp: bind_result_def split: sum.splits)
    moreover from Cons.prems(1)
    have "\<forall>x \<in> set xs. \<forall>g. randomize_variable x depth g = Inl e \<longrightarrow> e = RecursionError"
      by simp
    ultimately show ?thesis
      using Cons.IH by blast
  qed
qed

lemma randomize_variable_error:
  "randomize_variable v depth g = Inl e \<Longrightarrow> e = RecursionError"
proof (induction v arbitrary: g)
  case (PStr s)
  then show ?case
    using generate_random_string_error[of depth s STR_LEN_LOWER_BOUND STR_LEN_UPPER_BOUND g e]
    by (auto simp: bind_result_def STR_LEN_LOWER_BOUND_def STR_LEN_UPPER_BOUND_def
        split: sum.splits)
next
  case (PInt i)
  then show ?case
    using generate_random_integer_error[of depth i INT_LOWER_BOUND INT_UPPER_BOUND g e]
    by (auto simp: bind_result_def INT_LOWER_BOUND_def INT_UPPER_BOUND_def
        split: sum.splits)
next
  case (PBool b)
  then show ?case
    using generate_random_integer_error[of depth "if b then 1 else 0"
        INT_LOWER_BOUND INT_UPPER_BOUND g e]
    by (auto simp: bind_result_def INT_LOWER_BOUND_def INT_UPPER_BOUND_def
        split: sum.splits)
next
  case (PTuple xs)
  then have "randomize_variables xs depth g = Inl e"
    by (auto simp: bind_result_def split: sum.splits)
  moreover from PTuple.IH
  have "\<forall>x \<in> set xs. \<forall>g. randomize_variable x depth g = Inl e \<longrightarrow> e = RecursionError"
    by blast
  ultimately show ?case
    using randomize_variables_error_aux by blast
next
  case (PFrozenset xs)
  then have "randomize_variables xs depth g = Inl e"
    by (auto simp: bind_result_def split: sum.splits)
  moreover from PFrozenset.IH
  have "\<forall>x \<in> set xs. \<forall>g. randomize_variable x depth g = Inl e \<longrightarrow> e = RecursionError"
    by blast
  ultimately show ?case
    using randomize_variables_error_aux by blast
qed simp_all

lemma dict_store_absent:
  "dict_lookup d k = None \<Longrightarrow> dict_store d k v = d @ [(k, v)]"
  by (induction d) (auto simp: dict_lookup_def split: if_splits)

lemma dict_lookup_append:
  "dict_lookup d k = Some v \<Longrightarrow> dict_lookup (d @ d') k = Some v"
  by (induction d) (auto simp: dict_lookup_def split: if_splits)

lemma dict_lookup_appended:
  "dict_lookup d k = None \<Longrightarrow> dict_lookup (d @ [(k, v)]) k = Some v"
  by (induction d) (auto simp: dict_lookup_def py_eq_refl split: if_splits)

lemma randomized_oparg_of_result:
  assumes "randomized_oparg_of depth oparg st g = Inr (r, st1, g1)"
  shows "graph st1 = graph st \<and> current st1 = current st
      \<and> do_not_emit_bytecode st1 = do_not_emit_bytecode st
      \<and> dict_lookup (oparg_randomizations st1) oparg = Some r
      \<and> record_kept (oparg_randomizations st) (oparg_randomizations st1)"
proof (cases "dict_lookup (oparg_randomizations st) oparg")
  case (Some r0)
  with assms show ?thesis
    by (auto simp: randomized_oparg_of_def record_kept_def)
next
  case None
  with assms show ?thesis
    by (auto simp: randomized_oparg_of_def bind_result_def record_kept_def
        dict_store_absent dict_lookup_append dict_lookup_appended split: sum.splits)
qed

lemma randomized_oparg_of_error:
  "randomized_oparg_of depth oparg st g = Inl e \<Longrightarrow> e = RecursionError"
  using randomize_variable_error[of oparg depth g e]
  by (auto simp: randomized_oparg_of_def bind_result_def split: option.splits sum.splits)

subsection \<open>Operand randomization: LOAD_CONST\<close>

lemma LOAD_CONST_classes:
  "''LOAD_CONST'' \<notin> set INSTRS_WITH_OPARG_IN_NAMES"
  "''LOAD_CONST'' \<notin> set INSTRS_WITH_OPARG_IN_VARNAMES"
  "''LOAD_CONST'' \<notin> set INSTRS_WITH_OPARG_IN_CLOSURE"
  "''LOAD_CONST'' \<in> set INSTRS_WITH_OPARG_IN_CONSTS"
  by (simp_all add: INSTRS_WITH_OPARG_IN_NAMES_def INSTRS_WITH_OPARG_IN_VARNAMES_def
      INSTRS_WITH_OPARG_IN_CLOSURE_def INSTRS_WITH_OPARG_IN_CONSTS_def)

lemma randomize_oparg_LOAD_CONST:
  "\<not> do_not_emit_bytecode st \<Longrightarrow>
   randomize_oparg depth ''LOAD_CONST'' oparg ioparg st g =
     bind_result (randomized_oparg_of depth oparg st g)
       (\<lambda>(randomized_oparg, st1, g1).
          Inr (current_emit (Instruction ''LOAD_CONST'' oparg ioparg None) st1, g1))"
  by (simp add: randomize_oparg_def LOAD_CONST_classes generate_random_ioparg_def
      bind_result_def cong: sum.case_cong)

text \<open>
  Claim C10: on the operand-randomization path, when bytecode is emitted, LOAD_CONST is
  emitted with its original operand and its original encoded operand, and no table of
  the flow graph changes. The call raises nothing but the interpreter's RecursionError,
  and it emits exactly when the operand is already in the mutation record or its value
  randomization returns (the randomized value is recorded and not used).
\<close>

theorem load_const_is_not_mutated:
  assumes "\<not> do_not_emit_bytecode st"
  shows "(\<forall>st' g'. randomize_oparg depth ''LOAD_CONST'' oparg ioparg st g = Inr (st', g') \<longrightarrow>
            current st' = current st @ [Instruction ''LOAD_CONST'' oparg ioparg None]
            \<and> graph st' = graph st)
       \<and> (\<forall>e. randomize_oparg depth ''LOAD_CONST'' oparg ioparg st g = Inl e \<longrightarrow>
            e = RecursionError)
       \<and> ((\<exists>y. randomize_oparg depth ''LOAD_CONST'' oparg ioparg st g = Inr y) =
            (dict_contains (oparg_randomizations st) oparg
             \<or> (\<exists>y. randomize_variable oparg depth g = Inr y)))"
proof -
  have emitted: "current st' = current st @ [Instruction ''LOAD_CONST'' oparg ioparg None]
      \<and> graph st' = graph st"
    if run: "randomize_oparg depth ''LOAD_CONST'' oparg ioparg st g = Inr (st', g')"
    for st' g'
  proof -
    from run assms obtain r st1
      where z: "randomized_oparg_of depth oparg st g = Inr (r, st1, g')"
        and st': "st' = current_emit (Instruction ''LOAD_CONST'' oparg ioparg None) st1"
      by (auto simp: randomize_oparg_LOAD_CONST bind_result_def split: sum.splits)
    from randomized_oparg_of_result[OF z] st' show ?thesis
      by (simp add: current_emit_def)
  qed
  have raised: "e = RecursionError"
    if "randomize_oparg depth ''LOAD_CONST'' oparg ioparg st g = Inl e" for e
  proof -
    from that assms have "randomized_oparg_of depth oparg st g = Inl e"
      by (auto simp: randomize_oparg_LOAD_CONST bind_result_def split: sum.splits)
    then show ?thesis
      by (rule randomized_oparg_of_error)
  qed
  have "(\<exists>y. randomize_oparg depth ''LOAD_CONST'' oparg ioparg st g = Inr y) =
      (\<exists>z. randomized_oparg_of depth oparg st g = Inr z)"
    using assms
    by (auto simp: randomize_oparg_LOAD_CONST bind_result_def split: sum.splits)
  also have "\<dots> = (dict_contains (oparg_randomizations st) oparg
             \<or> (\<exists>y. randomize_variable oparg depth g = Inr y))"
    by (cases "dict_lookup (oparg_randomizations st) oparg";
        cases "randomize_variable oparg depth g")
      (auto simp: randomized_oparg_of_def dict_contains_def bind_result_def)
  finally have "(\<exists>y. randomize_oparg depth ''LOAD_CONST'' oparg ioparg st g = Inr y) =
            (dict_contains (oparg_randomizations st) oparg
             \<or> (\<exists>y. randomize_variable oparg depth g = Inr y))" .
  with emitted raised show ?thesis
    by blast
qed

theorem load_const_is_not_mutated_witness:
  "\<not> do_not_emit_bytecode
       \<lparr>oparg_randomizations = [],
        graph = \<lparr>g_consts = [(PTuple [PType ''int'', PInt 1], 0)], g_names = [],
                 g_varnames = [], g_freevars = [], g_cellvars = [], g_closure = []\<rparr>,
        do_not_emit_bytecode = False, current = []\<rparr>
   \<and> randomize_oparg 1000 ''LOAD_CONST'' (PInt 1) 0
       \<lparr>oparg_randomizations = [],
        graph = \<lparr>g_consts = [(PTuple [PType ''int'', PInt 1], 0)], g_names = [],
                 g_varnames = [], g_freevars = [], g_cellvars = [], g_closure = []\<rparr>,
        do_not_emit_bytecode = False, current = []\<rparr> (sconst 5)
     = Inr
        (\<lparr>oparg_randomizations = [(PInt 1, PInt (5 - 2 ^ 63))],
          graph = \<lparr>g_consts = [(PTuple [PType ''int'', PInt 1], 0)], g_names = [],
                   g_varnames = [], g_freevars = [], g_cellvars = [], g_closure = []\<rparr>,
          do_not_emit_bytecode = False,
          current = [Instruction ''LOAD_CONST'' (PInt 1) 0 None]\<rparr>, sconst 5)"
proof -
  let ?st = "\<lparr>oparg_randomizations = [],
        graph = \<lparr>g_consts = [(PTuple [PType ''int'', PInt 1], 0)], g_names = [],
                 g_varnames = [], g_freevars = [], g_cellvars = [], g_closure = []\<rparr>,
        do_not_emit_bytecode = False, current = []\<rparr>"
  have h: "\<not> do_not_emit_bytecode ?st"
    by simp
  have rv: "randomize_variable (PInt 1) 1000 (sconst 5) = Inr (PInt (5 - 2 ^ 63), sconst 5)"
    by (simp add: bind_result_def INT_LOWER_BOUND_def INT_UPPER_BOUND_def
        generate_random_integer_step)
  then have "\<exists>y. randomize_variable (PInt 1) 1000 (sconst 5) = Inr y"
    by simp
  with load_const_is_not_mutated[OF h, of 1000 "PInt 1" 0 "sconst 5"] obtain y
    where "randomize_oparg 1000 ''LOAD_CONST'' (PInt 1) 0 ?st (sconst 5) = Inr y"
    by blast
  then obtain st' g'
    where run: "randomize_oparg 1000 ''LOAD_CONST'' (PInt 1) 0 ?st (sconst 5) = Inr (st', g')"
    by (cases y) auto
  with load_const_is_not_mutated[OF h, of 1000 "PInt 1" 0 "sconst 5"]
  have "current st' = current ?st @ [Instruction ''LOAD_CONST'' (PInt 1) 0 None]"
    and "graph st' = graph ?st"
    by blast+
  moreover from run rv have "oparg_randomizations st' = [(PInt 1, PInt (5 - 2 ^ 63))]"
      and "do_not_emit_bytecode st' = False" and "g' = sconst 5"
    by (auto simp: randomize_oparg_LOAD_CONST randomized_oparg_of_def dict_lookup_def
        bind_result_def current_emit_def)
  ultimately have "st' = \<lparr>oparg_randomizations = [(PInt 1, PInt (5 - 2 ^ 63))],
          graph = \<lparr>g_consts = [(PTuple [PType ''int'', PInt 1], 0)], g_names = [],
                   g_varnames = [], g_freevars = [], g_cellvars = [], g_closure = []\<rparr>,
          do_not_emit_bytecode = False,
          current = [Instruction ''LOAD_CONST'' (PInt 1) 0 None]\<rparr>"
    by (cases st') simp
  with run \<open>g' = sconst 5\<close> show ?thesis
    by simp
qed

subsection \<open>Operand randomization: consistent renaming\<close>

lemma randomize_oparg_table_resident:
  assumes "\<not> do_not_emit_bytecode st" "table_resident opcode"
    and run: "randomize_oparg depth opcode oparg ioparg st g = Inr (st', g')"
  shows "\<exists>r io. dict_lookup (oparg_randomizations st') oparg = Some r
      \<and> current st' = current st @ [Instruction opcode r io None]
      \<and> record_kept (oparg_randomizations st) (oparg_randomizations st')"
proof -
  from run assms(1) obtain r st1 g1
    where z: "randomized_oparg_of depth oparg st g = Inr (r, st1, g1)"
    by (auto simp: randomize_oparg_def bind_result_def split: sum.splits)
  from randomized_oparg_of_result[OF z]
  have "current st1 = current st"
    and "dict_lookup (oparg_randomizations st1) oparg = Some r"
    and "record_kept (oparg_randomizations st) (oparg_randomizations st1)"
    by simp_all
  with run assms(1,2) z show ?thesis
    by (auto simp: randomize_oparg_def bind_result_def table_resident_def current_emit_def
        split: if_splits sum.splits prod.splits)
qed

text \<open>
  Claim C4 says that an operand met twice within one unit gets the same replacement on
  every mutation path, opcode substitution included. The substitution path synthesizes
  its operand afresh and never consults the mutation record: substituting LOAD_NAME \<open>a\<close>
  by LOAD_GLOBAL twice in a row (the front end has entered \<open>a\<close> into the names again in
  between) gives the new name \<open>x\<close> the first time and \<open>y\<close> the second time.
\<close>

theorem substitution_ignores_mutation_record:
  "generate_oparg_for_randomized_opcode 1000 ''LOAD_NAME'' ''LOAD_GLOBAL'' (PStr ''a'')
       \<lparr>g_consts = [], g_names = [(PStr ''a'', 0), (PStr ''b'', 1)], g_varnames = [],
        g_freevars = [], g_cellvars = [], g_closure = []\<rparr>
       (1 ## 23 ## 1 ## 24 ## sconst 0)
     = Inr (PStr ''x'',
         \<lparr>g_consts = [], g_names = [(PStr ''b'', 1), (PStr ''x'', 1)], g_varnames = [],
          g_freevars = [], g_cellvars = [], g_closure = []\<rparr>, 1 ## 24 ## sconst 0)
   \<and> generate_oparg_for_randomized_opcode 1000 ''LOAD_NAME'' ''LOAD_GLOBAL'' (PStr ''a'')
       \<lparr>g_consts = [], g_names = [(PStr ''b'', 1), (PStr ''x'', 1), (PStr ''a'', 2)],
        g_varnames = [], g_freevars = [], g_cellvars = [], g_closure = []\<rparr>
       (1 ## 24 ## sconst 0)
     = Inr (PStr ''y'',
         \<lparr>g_consts = [], g_names = [(PStr ''b'', 1), (PStr ''x'', 1), (PStr ''y'', 2)],
          g_varnames = [], g_freevars = [], g_cellvars = [], g_closure = []\<rparr>, sconst 0)"
  using random_name_x[of "1 ## 24 ## sconst 0"] random_name_y[of "sconst 0"]
  by (simp add: dict_contains_def dict_lookup_def get_index_def
      generate_oparg_for_randomized_opcode_def delete_original_oparg_def new_oparg_for_def
      INSTRS_WITH_OPARG_IN_CONSTS_def INSTRS_WITH_OPARG_IN_NAMES_def bind_result_def)

text \<open>
  Claim C4 as amended: on the operand-randomization path, when bytecode is emitted, an
  operand that is met twice by instructions whose operand lives in a table (LOAD_CONST
  apart) is emitted with the same randomized value both times, whatever happens in
  between, as long as the entries of the mutation record are kept. Each such call keeps
  the entries of the record. The substitution path does not read or write the record.
\<close>

theorem operand_randomization_renames_consistently:
  assumes "\<not> do_not_emit_bytecode st" "table_resident opcode"
    and "randomize_oparg depth opcode oparg ioparg st g = Inr (st1, g1)"
    and "record_kept (oparg_randomizations st1) (oparg_randomizations st2)"
    and "\<not> do_not_emit_bytecode st2" "table_resident opcode2"
    and "randomize_oparg depth2 opcode2 oparg ioparg2 st2 g2 = Inr (st3, g3)"
  shows "(\<exists>r i1 i2. current st1 = current st @ [Instruction opcode r i1 None]
            \<and> current st3 = current st2 @ [Instruction opcode2 r i2 None])
       \<and> record_kept (oparg_randomizations st) (oparg_randomizations st1)
       \<and> record_kept (oparg_randomizations st2) (oparg_randomizations st3)"
proof -
  from randomize_oparg_table_resident[OF assms(1,2,3)] obtain r i1
    where a: "dict_lookup (oparg_randomizations st1) oparg = Some r"
      "current st1 = current st @ [Instruction opcode r i1 None]"
      "record_kept (oparg_randomizations st) (oparg_randomizations st1)"
    by blast
  from a(1) assms(4) have k: "dict_lookup (oparg_randomizations st2) oparg = Some r"
    by (simp add: record_kept_def)
  from randomize_oparg_table_resident[OF assms(5,6,7)] obtain r' i2
    where b: "dict_lookup (oparg_randomizations st3) oparg = Some r'"
      "current st3 = current st2 @ [Instruction opcode2 r' i2 None]"
      "record_kept (oparg_randomizations st2) (oparg_randomizations st3)"
    by blast
  from k b(1,3) have "r' = r"
    by (simp add: record_kept_def)
  with a b show ?thesis
    by blast
qed

theorem operand_randomization_renames_consistently_witness:
  "randomize_oparg 1000 ''LOAD_NAME'' (PStr ''a'') 0
       \<lparr>oparg_randomizations = [],
        graph = \<lparr>g_consts = [], g_names = [(PStr ''a'', 0)], g_varnames = [],
                 g_freevars = [], g_cellvars = [], g_closure = []\<rparr>,
        do_not_emit_bytecode = False, current = []\<rparr> (1 ## 23 ## sconst 0)
     = Inr
        (\<lparr>oparg_randomizations = [(PStr ''a'', PStr ''x'')],
          graph = \<lparr>g_consts = [], g_names = [(PStr ''x'', 0)], g_varnames = [],
                   g_freevars = [], g_cellvars = [], g_closure = []\<rparr>,
          do_not_emit_bytecode = False,
          current = [Instruction ''LOAD_NAME'' (PStr ''x'') 0 None]\<rparr>, sconst 0)
   \<and> randomize_oparg 1000 ''STORE_NAME'' (PStr ''a'') 1
       \<lparr>oparg_randomizations = [(PStr ''a'', PStr ''x'')],
        graph = \<lparr>g_consts = [], g_names = [(PStr ''x'', 0), (PStr ''a'', 1)], g_varnames = [],
                 g_freevars = [], g_cellvars = [], g_closure = []\<rparr>,
        do_not_emit_bytecode = False,
        current = [Instruction ''LOAD_NAME'' (PStr ''x'') 0 None]\<rparr> (sconst 0)
     = Inr
        (\<lparr>oparg_randomizations = [(PStr ''a'', PStr ''x'')],
          graph = \<lparr>g_consts = [], g_names = [(PStr ''x'', 0)], g_varnames = [],
                   g_freevars = [], g_cellvars = [], g_closure = []\<rparr>,
          do_not_emit_bytecode = False,
          current = [Instruction ''LOAD_NAME'' (PStr ''x'') 0 None,
                     Instruction ''STORE_NAME'' (PStr ''x'') 0 None]\<rparr>, sconst 0)
   \<and> (\<exists>r i1 i2.
         [Instruction ''LOAD_NAME'' (PStr ''x'') 0 None] = [] @ [Instruction ''LOAD_NAME'' r i1 None]
         \<and> [Instruction ''LOAD_NAME'' (PStr ''x'') 0 None,
             Instruction ''STORE_NAME'' (PStr ''x'') 0 None]
           = [Instruction ''LOAD_NAME'' (PStr ''x'') 0 None] @ [Instruction ''STORE_NAME'' r i2 None])"
proof -
  let ?st = "\<lparr>oparg_randomizations = [],
        graph = \<lparr>g_consts = [], g_names = [(PStr ''a'', 0)], g_varnames = [],
                 g_freevars = [], g_cellvars = [], g_closure = []\<rparr>,
        do_not_emit_bytecode = False, current = []\<rparr>"
  let ?st1 = "\<lparr>oparg_randomizations = [(PStr ''a'', PStr ''x'')],
          graph = \<lparr>g_consts = [], g_names = [(PStr ''x'', 0)], g_varnames = [],
                   g_freevars = [], g_cellvars = [], g_closure = []\<rparr>,
          do_not_emit_bytecode = False,
          current = [Instruction ''LOAD_NAME'' (PStr ''x'') 0 None]\<rparr>"
  let ?st2 = "\<lparr>oparg_randomizations = [(PStr ''a'', PStr ''x'')],
        graph = \<lparr>g_consts = [], g_names = [(PStr ''x'', 0), (PStr ''a'', 1)], g_varnames = [],
                 g_freevars = [], g_cellvars = [], g_closure = []\<rparr>,
        do_not_emit_bytecode = False,
        current = [Instruction ''LOAD_NAME'' (PStr ''x'') 0 None]\<rparr>"
  let ?st3 = "\<lparr>oparg_randomizations = [(PStr ''a'', PStr ''x'')],
          graph = \<lparr>g_consts = [], g_names = [(PStr ''x'', 0)], g_varnames = [],
                   g_freevars = [], g_cellvars = [], g_closure = []\<rparr>,
          do_not_emit_bytecode = False,
          current = [Instruction ''LOAD_NAME'' (PStr ''x'') 0 None,
                     Instruction ''STORE_NAME'' (PStr ''x'') 0 None]\<rparr>"
  have mem: "''LOAD_NAME'' \<in> set INSTRS_WITH_OPARG_IN_NAMES"
    "''STORE_NAME'' \<in> set INSTRS_WITH_OPARG_IN_NAMES"
    by (simp_all add: INSTRS_WITH_OPARG_IN_NAMES_def)
  then have res: "table_resident ''LOAD_NAME''" "table_resident ''STORE_NAME''"
    by (simp_all add: table_resident_def)
  have run1: "randomize_oparg 1000 ''LOAD_NAME'' (PStr ''a'') 0 ?st (1 ## 23 ## sconst 0)
      = Inr (?st1, sconst 0)"
    using random_name_single[of 23 "''a''" 1000 "sconst 0"] alphabet_23 mem
    by (simp add: randomize_oparg_def randomized_oparg_of_def bind_result_def
        replace_name_var_def dict_contains_def dict_lookup_def get_index_def current_emit_def)
  have run2: "randomize_oparg 1000 ''STORE_NAME'' (PStr ''a'') 1 ?st2 (sconst 0)
      = Inr (?st3, sconst 0)"
    using mem
    by (simp add: randomize_oparg_def randomized_oparg_of_def bind_result_def
        replace_name_var_def dict_contains_def dict_lookup_def get_index_def current_emit_def)
  have kept: "record_kept (oparg_randomizations ?st1) (oparg_randomizations ?st2)"
    by (simp add: record_kept_def)
  have e1: "\<not> do_not_emit_bytecode ?st" and e2: "\<not> do_not_emit_bytecode ?st2"
    by simp_all
  from operand_randomization_renames_consistently[OF e1 res(1) run1 kept e2 res(2) run2]
  have "\<exists>r i1 i2. current ?st1 = current ?st @ [Instruction ''LOAD_NAME'' r i1 None]
      \<and> current ?st3 = current ?st2 @ [Instruction ''STORE_NAME'' r i2 None]"
    by blast
  with run1 run2 show ?thesis
    by simp
qed

subsection \<open>The outcome of the fuzz driver\<close>

lemma LOAD_DEREF_classes:
  "''LOAD_DEREF'' \<notin> set INSTRS_WITH_OPARG_IN_NAMES"
  "''LOAD_DEREF'' \<notin> set INSTRS_WITH_OPARG_IN_VARNAMES"
  "''LOAD_DEREF'' \<notin> set INSTRS_WITH_OPARG_IN_CONSTS"
  "''LOAD_DEREF'' \<in> set INSTRS_WITH_OPARG_IN_CLOSURE"
  by (simp_all add: INSTRS_WITH_OPARG_IN_NAMES_def INSTRS_WITH_OPARG_IN_VARNAMES_def
      INSTRS_WITH_OPARG_IN_CLOSURE_def INSTRS_WITH_OPARG_IN_CONSTS_def)

text \<open>
  Claim C3 says that \<open>fuzzer_compile\<close> returns a pair for every source text. The function
  catches SyntaxError, VerificationError and, around the JIT, RuntimeError; every other
  exception leaves it. The instrumented compiler raises such exceptions itself: when one
  scope reads the free variable \<open>a\<close> twice, as the inner function of
  \<open>lambda a: lambda: a + a\<close> does, the first LOAD_DEREF replaces \<open>a\<close> by its randomized
  name in the free-variable table, and the second LOAD_DEREF, finding \<open>a\<close> in neither
  table, raises KeyError in \<open>replace_closure_var\<close>. A KeyError of the compiler is not
  caught, and neither is the ValueError that a text with a NUL character raises: in both
  cases the caller gets an exception and no pair.
\<close>

theorem fuzzer_compile_propagates_other_exceptions:
  "randomize_oparg 1000 ''LOAD_DEREF'' (PStr ''a'') 0
       \<lparr>oparg_randomizations = [],
        graph = \<lparr>g_consts = [], g_names = [], g_varnames = [],
                 g_freevars = [(PStr ''a'', 0)], g_cellvars = [],
                 g_closure = [(PStr ''a'', 0)]\<rparr>,
        do_not_emit_bytecode = False, current = []\<rparr> (1 ## 23 ## sconst 0)
     = Inr
        (\<lparr>oparg_randomizations = [(PStr ''a'', PStr ''x'')],
          graph = \<lparr>g_consts = [], g_names = [], g_varnames = [],
                   g_freevars = [(PStr ''x'', 0)], g_cellvars = [],
                   g_closure = [(PStr ''a'', 0)]\<rparr>,
          do_not_emit_bytecode = False,
          current = [Instruction ''LOAD_DEREF'' (PStr ''x'') 0 None]\<rparr>, sconst 0)
   \<and> randomize_oparg 1000 ''LOAD_DEREF'' (PStr ''a'') 0
       \<lparr>oparg_randomizations = [(PStr ''a'', PStr ''x'')],
        graph = \<lparr>g_consts = [], g_names = [], g_varnames = [],
                 g_freevars = [(PStr ''x'', 0)], g_cellvars = [],
                 g_closure = [(PStr ''a'', 0)]\<rparr>,
        do_not_emit_bytecode = False,
        current = [Instruction ''LOAD_DEREF'' (PStr ''x'') 0 None]\<rparr> (sconst 0)
     = Inl KeyError
   \<and> fuzzer_compile jit_collaborators ''lambda a: lambda: a + a'' = Inl KeyError
   \<and> fuzzer_compile jit_collaborators [CHR 0x00] = Inl ValueError"
  using random_name_single[of 23 "''a''" 1000 "sconst 0"] alphabet_23
  by (simp add: randomize_oparg_def randomized_oparg_of_def bind_result_def
      LOAD_DEREF_classes replace_closure_var_def dict_contains_def dict_lookup_def
      get_index_def current_emit_def fuzzer_compile_def wrap_code_def except_clauses_def
      jit_collaborators_def)

text \<open>
  Claim C3 as amended: \<open>fuzzer_compile\<close> returns a pair or lets an exception through.
  A SyntaxError raised inside the \<open>try\<close> gives \<open>(None, SYNTAX_ERROR)\<close>; a
  VerificationError raised once the unit is compiled gives the unit with
  \<open>VERIFICATION_ERROR\<close>; a RuntimeError of the JIT gives the unit with
  \<open>ERROR_CAUGHT_BY_JIT\<close>; when nothing is raised, with or without a JIT, the unit is
  returned with \<open>SUCCESS\<close>. Every other exception of the compiler, the verifier, the
  construction of the function object or the JIT reaches the caller. In every pair that
  is returned the classification is one of the four and the unit is \<open>None\<close> exactly when
  the classification is \<open>SYNTAX_ERROR\<close>.
\<close>

theorem fuzzer_compile_outcome:
  "(\<forall>u c. fuzzer_compile env code_str = Inr (u, c) \<longrightarrow>
        c \<in> {SYNTAX_ERROR, ERROR_CAUGHT_BY_JIT, VERIFICATION_ERROR, SUCCESS}
        \<and> (u = None) = (c = SYNTAX_ERROR))
   \<and> (\<forall>e. compile_source env (wrap_code env code_str) = Inl e \<longrightarrow>
        fuzzer_compile env code_str =
          (if e = SyntaxError then Inr (None, SYNTAX_ERROR)
           else if e = VerificationError then Inl UnboundLocalError
           else Inl e))
   \<and> (\<forall>code. compile_source env (wrap_code env code_str) = Inr code \<longrightarrow>
        (\<forall>e. validate_code env code = Inl e \<longrightarrow>
           fuzzer_compile env code_str =
             (if e = SyntaxError then Inr (None, SYNTAX_ERROR)
              else if e = VerificationError then Inr (Some code, VERIFICATION_ERROR)
              else Inl e))
        \<and> (\<forall>u. validate_code env code = Inr u \<longrightarrow>
             (\<forall>e. function_type env code = Inl e \<longrightarrow>
                fuzzer_compile env code_str =
                  (if e = SyntaxError then Inr (None, SYNTAX_ERROR)
                   else if e = VerificationError then Inr (Some code, VERIFICATION_ERROR)
                   else Inl e))
             \<and> (\<forall>func. function_type env code = Inr func \<longrightarrow>
                  (cinderjit env = None \<longrightarrow>
                     fuzzer_compile env code_str = Inr (Some code, SUCCESS))
                  \<and> (\<forall>force_compile. cinderjit env = Some force_compile \<longrightarrow>
                       (\<forall>j. force_compile func = Inr j \<longrightarrow>
                          fuzzer_compile env code_str = Inr (Some code, SUCCESS))
                       \<and> (\<forall>e. force_compile func = Inl e \<longrightarrow>
                            fuzzer_compile env code_str =
                              (if e = RuntimeError \<or> e = RecursionError
                               then Inr (Some code, ERROR_CAUGHT_BY_JIT)
                               else if e = SyntaxError then Inr (None, SYNTAX_ERROR)
                               else if e = VerificationError
                               then Inr (Some code, VERIFICATION_ERROR)
                               else Inl e))))))"
proof -
  have "c \<in> {SYNTAX_ERROR, ERROR_CAUGHT_BY_JIT, VERIFICATION_ERROR, SUCCESS}
      \<and> (u = None) = (c = SYNTAX_ERROR)"
    if "fuzzer_compile env code_str = Inr (u, c)" for u c
    using that
    by (cases c)
      (auto simp: fuzzer_compile_def except_clauses_def Let_def
        split: sum.splits option.splits if_splits)
  then show ?thesis
    by (simp add: fuzzer_compile_def except_clauses_def is_RuntimeError_def)
qed

theorem fuzzer_compile_outcome_witness:
  "fuzzer_compile stub_collaborators ''def f(:'' = Inr (None, SYNTAX_ERROR)
   \<and> fuzzer_compile stub_collaborators ''x = 1'' = Inr (Some 0, VERIFICATION_ERROR)
   \<and> fuzzer_compile jit_collaborators ''x = 1'' = Inr (Some 1, ERROR_CAUGHT_BY_JIT)
   \<and> fuzzer_compile jit_collaborators ''y = 2'' = Inr (Some 0, SUCCESS)"
proof -
  have a: "compile_source stub_collaborators (wrap_code stub_collaborators ''def f(:'')
      = Inl SyntaxError"
    by (simp add: stub_collaborators_def wrap_code_def)
  have b: "compile_source stub_collaborators (wrap_code stub_collaborators ''x = 1'') = Inr 0"
    "validate_code stub_collaborators 0 = Inl VerificationError"
    by (simp_all add: stub_collaborators_def wrap_code_def)
  have c: "compile_source jit_collaborators (wrap_code jit_collaborators ''x = 1'') = Inr 1"
    "validate_code jit_collaborators 1 = Inr ()"
    "function_type jit_collaborators 1 = Inr 1"
    "cinderjit jit_collaborators = Some (\<lambda>f. if f = 1 then Inl RuntimeError else Inr ())"
    by (simp_all add: jit_collaborators_def wrap_code_def)
  have d: "compile_source jit_collaborators (wrap_code jit_collaborators ''y = 2'') = Inr 0"
    "validate_code jit_collaborators 0 = Inr ()"
    "function_type jit_collaborators 0 = Inr 0"
    by (simp_all add: jit_collaborators_def wrap_code_def)
  from fuzzer_compile_outcome[of stub_collaborators "''def f(:''"] a
  have "fuzzer_compile stub_collaborators ''def f(:'' = Inr (None, SYNTAX_ERROR)"
    by simp
  moreover from fuzzer_compile_outcome[of stub_collaborators "''x = 1''"] b
  have "fuzzer_compile stub_collaborators ''x = 1'' = Inr (Some 0, VERIFICATION_ERROR)"
    by simp
  moreover from fuzzer_compile_outcome[of jit_collaborators "''x = 1''"] c
  have "fuzzer_compile jit_collaborators ''x = 1'' = Inr (Some 1, ERROR_CAUGHT_BY_JIT)"
    by simp
  moreover from fuzzer_compile_outcome[of jit_collaborators "''y = 2''"] c(4) d
  have "fuzzer_compile jit_collaborators ''y = 2'' = Inr (Some 0, SUCCESS)"
    by simp
  ultimately show ?thesis
    by blast
qed

subsection \<open>The encoded operand of COMPARE_OP\<close>

lemma COMPARE_OP_classes:
  "''COMPARE_OP'' \<notin> set INSTRS_WITH_OPARG_IN_NAMES"
  "''COMPARE_OP'' \<notin> set INSTRS_WITH_OPARG_IN_VARNAMES"
  "''COMPARE_OP'' \<notin> set INSTRS_WITH_OPARG_IN_CLOSURE"
  "''COMPARE_OP'' \<notin> set INSTRS_WITH_OPARG_IN_CONSTS"
  "''COMPARE_OP'' \<notin> set INSTRS_WITH_BRANCHES"
  "''COMPARE_OP'' \<notin> set INSTRS_WITH_OPARG_AFFECTING_STACK"
  by (simp_all add: INSTRS_WITH_OPARG_IN_NAMES_def INSTRS_WITH_OPARG_IN_VARNAMES_def
      INSTRS_WITH_OPARG_IN_CLOSURE_def INSTRS_WITH_OPARG_IN_CONSTS_def
      INSTRS_WITH_BRANCHES_def INSTRS_WITH_OPARG_AFFECTING_STACK_def)

lemma randomize_less_sign:
  "randomize_variable (PStr ''<'') 1000 (0 ## sconst 12) = Inr (PStr [], sconst 12)"
proof -
  have "random_str_draw 0 100 (0 ## sconst 12) = Inr ([], sconst 12)"
    by (simp add: random_str_draw_def random_randint_def)
  then have "generate_random_string 1000 ''<'' 0 100 (0 ## sconst 12) = Inr ([], sconst 12)"
    by (subst generate_random_string_step) simp_all
  then show ?thesis
    by (simp add: bind_result_def STR_LEN_LOWER_BOUND_def STR_LEN_UPPER_BOUND_def)
qed

text \<open>
  Claim C9 says that the operand-randomization path gives COMPARE_OP an encoded operand
  between 0 and 11. \<open>generate_random_ioparg\<close> draws it with
  \<open>generate_random_integer(ioparg, 0, CMP_OP_LENGTH)\<close>, and \<open>random.randint\<close> includes its
  upper bound, so the draw ranges over the thirteen values 0 to 12. With a random source
  whose draw lands on the upper bound the function returns 12, and \<open>randomize_oparg\<close>
  emits COMPARE_OP with the encoded operand 12, which is not an index of the twelve
  comparison operators.
\<close>

theorem compare_op_ioparg_reaches_12:
  "generate_random_ioparg 1000 ''COMPARE_OP'' 2 (sconst 12) = Inr (12, sconst 12)
   \<and> randomize_oparg 1000 ''COMPARE_OP'' (PStr ''<'') 0
       \<lparr>oparg_randomizations = [],
        graph = \<lparr>g_consts = [], g_names = [], g_varnames = [], g_freevars = [],
                 g_cellvars = [], g_closure = []\<rparr>,
        do_not_emit_bytecode = False, current = []\<rparr> (0 ## sconst 12)
     = Inr
        (\<lparr>oparg_randomizations = [(PStr ''<'', PStr [])],
          graph = \<lparr>g_consts = [], g_names = [], g_varnames = [], g_freevars = [],
                   g_cellvars = [], g_closure = []\<rparr>,
          do_not_emit_bytecode = False,
          current = [Instruction ''COMPARE_OP'' (PStr ''<'') 12 None]\<rparr>, sconst 12)"
  using randomize_less_sign
  by (simp add: generate_random_ioparg_def COMPARE_OP_classes CMP_OP_LENGTH_def
      generate_random_integer_step randomize_oparg_def randomized_oparg_of_def
      dict_lookup_def bind_result_def current_emit_def)

end
